theory Spec2Isabelle
  imports Complex_Main "HOL-Library.Word"
begin

section \<open>Shared vocabulary\<close>

text \<open>
  The repository is a pair of Python servers for an ESP32-P4 voice appliance:
  \<^verbatim>\<open>howdytts_esp32_server.py\<close> (a UDP audio server with a trailing-silence segmentation
  loop) and \<^verbatim>\<open>tools/howdytts_test_server.py\<close> (a WebSocket test server). Bytes are
  8-bit words, PCM samples are 16-bit words, Python integers are \<open>int\<close>, clock readings
  of \<^verbatim>\<open>time.time()\<close> are idealised as real numbers (seconds).
\<close>

type_synonym byte = "8 word"
type_synonym sample = "16 word"
type_synonym addr = "string \<times> nat"

text \<open>
  The exceptions the modelled code can meet. \<open>KeyboardInterrupt\<close> is the one that is not
  a subclass of \<^verbatim>\<open>Exception\<close>, so \<^verbatim>\<open>except Exception\<close> does not catch it.
\<close>

datatype exn =
    SocketTimeout
  | OSError
  | ValueError
  | StructError
  | TypeError
  | AttributeError
  | ZeroDivisionError
  | JSONDecodeError
  | RecursionError
  | KeyboardInterrupt

fun is_Exception :: "exn \<Rightarrow> bool" where
  "is_Exception KeyboardInterrupt = False"
| "is_Exception _ = True"

section \<open>The datagram header: \<^verbatim>\<open>struct\<close> format \<^verbatim>\<open><IHH\<close>\<close>

text \<open>
  \<^verbatim>\<open>struct.pack('<IHH', timestamp, sequence, data_size)\<close> writes a little-endian uint32
  and two little-endian uint16; it raises \<^verbatim>\<open>struct.error\<close> when a value does not fit
  its field. \<^verbatim>\<open>struct.unpack('<IHH', b)\<close> reads them back from exactly 8 bytes.
\<close>

fun le_bytes :: "nat \<Rightarrow> int \<Rightarrow> byte list" where
  "le_bytes 0 x = []"
| "le_bytes (Suc n) x = word_of_int (x mod 256) # le_bytes n (x div 256)"

fun le_int :: "byte list \<Rightarrow> int" where
  "le_int [] = 0"
| "le_int (b # bs) = uint b + 256 * le_int bs"

definition fits :: "nat \<Rightarrow> int \<Rightarrow> bool" where
  "fits n x = (0 \<le> x \<and> x < 256 ^ n)"

definition struct_pack_IHH :: "int \<Rightarrow> int \<Rightarrow> int \<Rightarrow> exn + byte list" where
  "struct_pack_IHH timestamp sequence data_size =
     (if fits 4 timestamp \<and> fits 2 sequence \<and> fits 2 data_size
      then Inr (le_bytes 4 timestamp @ le_bytes 2 sequence @ le_bytes 2 data_size)
      else Inl StructError)"

definition struct_unpack_IHH :: "byte list \<Rightarrow> exn + (int \<times> int \<times> int)" where
  "struct_unpack_IHH b =
     (if length b = 8
      then Inr (le_int (take 4 b), le_int (take 2 (drop 4 b)), le_int (take 2 (drop 6 b)))
      else Inl StructError)"

subsection \<open>Sample arrays\<close>

text \<open>
  \<^verbatim>\<open>np.frombuffer(buf, dtype=np.int16)\<close> reinterprets a byte string as 16-bit samples
  and raises \<^verbatim>\<open>ValueError\<close> when the length is not a multiple of 2;
  \<^verbatim>\<open>chunk.tobytes()\<close> is its inverse. The byte order is the machine's (little-endian
  on the platforms the servers run on).
\<close>

fun int16_of_bytes :: "byte list \<Rightarrow> sample list" where
  "int16_of_bytes (lo # hi # bs) = word_of_int (uint lo + 256 * uint hi) # int16_of_bytes bs"
| "int16_of_bytes [b] = []"
| "int16_of_bytes [] = []"

definition frombuffer_int16 :: "byte list \<Rightarrow> exn + sample list" where
  "frombuffer_int16 buf =
     (if length buf mod 2 \<noteq> 0 then Inl ValueError else Inr (int16_of_bytes buf))"

fun tobytes :: "sample list \<Rightarrow> byte list" where
  "tobytes [] = []"
| "tobytes (x # xs) = word_of_int (uint x mod 256) # word_of_int (uint x div 256) # tobytes xs"

section \<open>\<^verbatim>\<open>ESP32AudioServer\<close>\<close>

text \<open>
  What the logger is asked to write, one constructor per call site of the class, with
  the level it is written at.
\<close>

datatype log_entry =
    LogConnected addr
  | LogReceiveError exn
  | LogNoClient
  | LogSending nat

datatype level = INFO | WARNING | ERROR

fun level_of :: "log_entry \<Rightarrow> level" where
  "level_of (LogConnected a) = INFO"
| "level_of (LogReceiveError e) = ERROR"
| "level_of LogNoClient = WARNING"
| "level_of (LogSending n) = INFO"

text \<open>
  The mutable attributes of the server object (\<open>client_address\<close>, \<open>audio_queue\<close>)
  together with what it has written to the outside: the log records and the datagrams
  handed to \<^verbatim>\<open>sendto\<close>. The class keeps no counter of any kind.
\<close>

record server =
  client_address :: "addr option"
  audio_queue :: "sample list list"
  log :: "log_entry list"
  sent :: "(byte list \<times> addr) list"

text \<open>Lines 39-40: the server as \<^verbatim>\<open>__init__\<close> leaves it.\<close>

definition server_init :: server where
  "server_init = \<lparr>client_address = None, audio_queue = [], log = [], sent = []\<rparr>"

definition error_count :: "server \<Rightarrow> nat" where
  "error_count s = length (filter (\<lambda>e. level_of e = ERROR) (log s))"

definition connect_notifications :: "server \<Rightarrow> addr list" where
  "connect_notifications s = concat (map (\<lambda>e. case e of LogConnected a \<Rightarrow> [a] | _ \<Rightarrow> []) (log s))"

subsection \<open>\<^verbatim>\<open>receive_audio\<close>\<close>

text \<open>
  One call of \<^verbatim>\<open>self.sock.recvfrom(256)\<close>: it returns a datagram and its source, or
  raises (\<^verbatim>\<open>socket.timeout\<close> after 0.1 s, or another error).
\<close>

datatype sock_event = Recv "byte list" addr | RecvRaises exn

text \<open>Lines 53-55: remember the sender, announcing a change.\<close>

definition save_client_address :: "server \<Rightarrow> addr \<Rightarrow> server" where
  "save_client_address s a =
     (if client_address s \<noteq> Some a
      then s\<lparr>client_address := Some a, log := log s @ [LogConnected a]\<rparr>
      else s)"

text \<open>Line 60: \<^verbatim>\<open>data[8:8+data_size]\<close>.\<close>

definition payload_slice :: "byte list \<Rightarrow> int \<Rightarrow> byte list" where
  "payload_slice data data_size = take (nat data_size) (drop 8 data)"

text \<open>
  The body of the \<^verbatim>\<open>try\<close> block (lines 50-64). It returns the state reached and the
  exception raised, if any: an assignment made before a raise stays made.
\<close>

fun try_receive :: "server \<Rightarrow> sock_event \<Rightarrow> server \<times> exn option" where
  "try_receive s (RecvRaises e) = (s, Some e)"
| "try_receive s (Recv data a) =
     (let s1 = save_client_address s a in
      if length data \<ge> 8 then
        (case struct_unpack_IHH (take 8 data) of
           Inl e \<Rightarrow> (s1, Some e)
         | Inr (timestamp, sequence, data_size) \<Rightarrow>
             (case frombuffer_int16 (payload_slice data data_size) of
                Inl e \<Rightarrow> (s1, Some e)
              | Inr audio_samples \<Rightarrow>
                  (s1\<lparr>audio_queue := audio_queue s1 @ [audio_samples]\<rparr>, None)))
      else (s1, None))"

text \<open>
  One iteration of the \<^verbatim>\<open>while\<close> loop with its two handlers (lines 66-69):
  a timeout continues silently, any other \<^verbatim>\<open>Exception\<close> is logged, and only an
  exception outside \<^verbatim>\<open>Exception\<close> leaves the loop.
\<close>

definition receive_iteration :: "server \<Rightarrow> sock_event \<Rightarrow> exn + server" where
  "receive_iteration s ev =
     (case try_receive s ev of
        (s', None) \<Rightarrow> Inr s'
      | (s', Some e) \<Rightarrow>
          if e = SocketTimeout then Inr s'
          else if is_Exception e then Inr (s'\<lparr>log := log s' @ [LogReceiveError e]\<rparr>)
          else Inl e)"

text \<open>
  The loop, over the results of the successive \<^verbatim>\<open>recvfrom\<close> calls made while
  \<^verbatim>\<open>running\<close> is set.
\<close>

fun receive_audio :: "server \<Rightarrow> sock_event list \<Rightarrow> exn + server" where
  "receive_audio s [] = Inr s"
| "receive_audio s (ev # evs) =
     (case receive_iteration s ev of
        Inl e \<Rightarrow> Inl e
      | Inr s' \<Rightarrow> receive_audio s' evs)"

text \<open>The source of the most recent datagram among the events, if there is one.\<close>

fun last_source :: "addr option \<Rightarrow> sock_event list \<Rightarrow> addr option" where
  "last_source cur [] = cur"
| "last_source cur (Recv data a # evs) = last_source (Some a) evs"
| "last_source cur (RecvRaises e # evs) = last_source cur evs"

text \<open>Events that deliver a datagram, as opposed to a raising \<^verbatim>\<open>recvfrom\<close>.\<close>

fun is_datagram :: "sock_event \<Rightarrow> bool" where
  "is_datagram (Recv data a) = True"
| "is_datagram (RecvRaises e) = False"

subsection \<open>\<^verbatim>\<open>send_audio\<close>\<close>

text \<open>
  The reply waveform is a numpy array: already \<^verbatim>\<open>int16\<close>, or of another dtype, in
  which case line 79 converts it element by element
  (\<^verbatim>\<open>(audio_samples * 32767).astype(np.int16)\<close>); that conversion is the parameter
  \<open>conv\<close>.
\<close>

datatype 'a ndarray = Int16Array "sample list" | OtherArray "'a list"

definition to_int16 :: "('a \<Rightarrow> sample) \<Rightarrow> 'a ndarray \<Rightarrow> sample list" where
  "to_int16 conv audio =
     (case audio of Int16Array xs \<Rightarrow> xs | OtherArray ys \<Rightarrow> map conv ys)"

definition chunk_size :: nat where
  "chunk_size = 320"

text \<open>\<^verbatim>\<open>range(start, stop, step)\<close> for a positive step.\<close>

function py_range :: "nat \<Rightarrow> nat \<Rightarrow> nat \<Rightarrow> nat list" where
  "py_range start stop step =
     (if step = 0 \<or> stop \<le> start then [] else start # py_range (start + step) stop step)"
  by pat_completeness auto
termination
  by (relation "measure (\<lambda>(start, stop, step). stop - start)") auto

text \<open>Line 92: \<^verbatim>\<open>np.pad(chunk, (0, n), mode='constant')\<close> appends \<open>n\<close> zeros.\<close>

definition np_pad :: "sample list \<Rightarrow> nat \<Rightarrow> sample list" where
  "np_pad chunk n = chunk @ replicate n 0"

text \<open>Lines 88-92: the slice at offset \<open>i\<close> and the chunk that is transmitted for it.\<close>

definition chunk_at :: "sample list \<Rightarrow> nat \<Rightarrow> sample list" where
  "chunk_at audio_samples i = take chunk_size (drop i audio_samples)"

definition padded :: "sample list \<Rightarrow> sample list" where
  "padded chunk =
     (if length chunk < chunk_size then np_pad chunk (chunk_size - length chunk) else chunk)"

text \<open>
  The \<^verbatim>\<open>for\<close> loop of lines 87-104 over the offsets still to do. \<open>clock k\<close> is the
  value of \<^verbatim>\<open>int(time.time() * 1000)\<close> in the iteration that sends sequence number
  \<open>k\<close>. The result is the list of datagrams handed to \<^verbatim>\<open>sendto\<close> and the exception
  that ended the loop, if one did: \<^verbatim>\<open>struct.pack\<close> raises when the timestamp or the
  sequence number does not fit its field. The pacing \<^verbatim>\<open>time.sleep\<close> has no effect on
  the data.
\<close>

fun send_chunks ::
  "(nat \<Rightarrow> int) \<Rightarrow> addr \<Rightarrow> sample list \<Rightarrow> nat \<Rightarrow> nat list \<Rightarrow> (byte list \<times> addr) list \<times> exn option"
where
  "send_chunks clock a audio_samples sequence [] = ([], None)"
| "send_chunks clock a audio_samples sequence (i # rest) =
     (let chunk = padded (chunk_at audio_samples i);
          timestamp = clock sequence
      in case struct_pack_IHH timestamp (int sequence) (int (length chunk * 2)) of
           Inl e \<Rightarrow> ([], Some e)
         | Inr header \<Rightarrow>
             (case send_chunks clock a audio_samples (sequence + 1) rest of
                (ps, r) \<Rightarrow> ((header @ tobytes chunk, a) # ps, r)))"

definition send_audio ::
  "('a \<Rightarrow> sample) \<Rightarrow> (nat \<Rightarrow> int) \<Rightarrow> server \<Rightarrow> 'a ndarray \<Rightarrow> server \<times> exn option"
where
  "send_audio conv clock s audio =
     (case client_address s of
        None \<Rightarrow> (s\<lparr>log := log s @ [LogNoClient]\<rparr>, None)
      | Some a \<Rightarrow>
          (let audio_samples = to_int16 conv audio;
               s1 = s\<lparr>log := log s @ [LogSending (length audio_samples)]\<rparr>
           in case send_chunks clock a audio_samples 0
                     (py_range 0 (length audio_samples) chunk_size) of
                (ps, r) \<Rightarrow> (s1\<lparr>sent := sent s1 @ ps\<rparr>, r)))"

text \<open>The three header fields of a transmitted datagram, and its payload.\<close>

definition header_of :: "byte list \<Rightarrow> exn + (int \<times> int \<times> int)" where
  "header_of packet = struct_unpack_IHH (take 8 packet)"

subsection \<open>Decoding and re-encoding a packet\<close>

text \<open>
  Decoding as \<^verbatim>\<open>receive_audio\<close> does it (lines 58-60: header fields and payload
  slice; line 63: the samples), and encoding as \<^verbatim>\<open>send_audio\<close> does it (lines 96-97),
  once on the payload bytes and once on a chunk of samples.
\<close>

definition decode_packet :: "byte list \<Rightarrow> exn + (int \<times> int \<times> int \<times> byte list)" where
  "decode_packet data =
     (if length data \<ge> 8 then
        (case struct_unpack_IHH (take 8 data) of
           Inl e \<Rightarrow> Inl e
         | Inr (timestamp, sequence, data_size) \<Rightarrow>
             Inr (timestamp, sequence, data_size, payload_slice data data_size))
      else Inl StructError)"

definition encode_packet :: "int \<Rightarrow> int \<Rightarrow> int \<Rightarrow> byte list \<Rightarrow> exn + byte list" where
  "encode_packet timestamp sequence data_size payload =
     (case struct_pack_IHH timestamp sequence data_size of
        Inl e \<Rightarrow> Inl e
      | Inr header \<Rightarrow> Inr (header @ payload))"

definition encode_chunk :: "int \<Rightarrow> int \<Rightarrow> sample list \<Rightarrow> exn + byte list" where
  "encode_chunk timestamp sequence chunk =
     encode_packet timestamp sequence (int (length chunk * 2)) (tobytes chunk)"

text \<open>A valid packet: at least a header, and the header's size field is the payload's length.\<close>

definition valid_packet :: "byte list \<Rightarrow> bool" where
  "valid_packet p =
     (length p \<ge> 8 \<and>
      (case header_of p of
         Inl e \<Rightarrow> False
       | Inr (timestamp, sequence, data_size) \<Rightarrow> data_size = int (length p) - 8))"

section \<open>\<^verbatim>\<open>HowdyTTSESP32Integration.process_audio_stream\<close>\<close>

text \<open>
  The audio processing parameters set in \<^verbatim>\<open>__init__\<close> (lines 119-121) and their
  values there.
\<close>

record integration =
  sample_rate :: nat
  silence_threshold_ms :: real
  min_audio_length :: real

definition howdy :: integration where
  "howdy = \<lparr>sample_rate = 16000, silence_threshold_ms = 500, min_audio_length = 0.5\<rparr>"

text \<open>
  One pass of the \<^verbatim>\<open>while True\<close> loop starts with
  \<^verbatim>\<open>audio_queue.get(timeout=0.02)\<close>: it returns a frame (\<open>Got\<close>, with the reading
  of \<^verbatim>\<open>time.time()\<close> taken on line 225), or raises \<^verbatim>\<open>queue.Empty\<close> (\<open>Empty\<close>,
  with the reading taken on line 230), or the user interrupts (\<open>Interrupt\<close>).
\<close>

datatype poll = Got "sample list" real | Empty real | Interrupt

text \<open>
  The loop's local variables, and the utterances handed to the transcriber so far
  (line 250; the samples are scaled by 1/32768 on the way, line 246). What follows the
  hand-over (lines 248-273: transcription, reply, send) sits in its own
  \<^verbatim>\<open>try ... except Exception\<close> and touches none of the loop's variables.

  One pass returns the new variables, or the exception that leaves the loop: the
  interrupt, and the \<^verbatim>\<open>ZeroDivisionError\<close> of line 237 when the sample rate is 0,
  which is raised inside the \<^verbatim>\<open>except queue.Empty\<close> clause and so is out of reach of
  the clauses of lines 279 and 282.
\<close>

record segmenter =
  audio_buffer :: "sample list"
  last_audio_time :: real
  processing :: bool
  utterances :: "sample list list"

definition poll_step :: "integration \<Rightarrow> segmenter \<Rightarrow> poll \<Rightarrow> exn + segmenter" where
  "poll_step cfg s p =
     (case p of
        Got audio_chunk t \<Rightarrow>
          Inr (s\<lparr>audio_buffer := audio_buffer s @ audio_chunk,
                 last_audio_time := t,
                 processing := False\<rparr>)
      | Empty t \<Rightarrow>
          (let silence_duration = (t - last_audio_time s) * 1000 in
           if audio_buffer s \<noteq> [] \<and> silence_duration > silence_threshold_ms cfg
              \<and> \<not> processing s
           then
             (if sample_rate cfg = 0 then Inl ZeroDivisionError
              else
                (let audio_duration = real (length (audio_buffer s)) / real (sample_rate cfg) in
                 if audio_duration < min_audio_length cfg
                 then Inr (s\<lparr>audio_buffer := []\<rparr>)
                 else Inr (s\<lparr>utterances := utterances s @ [audio_buffer s],
                             audio_buffer := [],
                             processing := False\<rparr>)))
           else Inr s)
      | Interrupt \<Rightarrow> Inl KeyboardInterrupt)"

text \<open>
  The loop over the successive polls; it ends with the variables it has when the polls
  run out or an exception leaves it.
\<close>

fun process_audio_stream :: "integration \<Rightarrow> segmenter \<Rightarrow> poll list \<Rightarrow> segmenter" where
  "process_audio_stream cfg s [] = s"
| "process_audio_stream cfg s (p # ps) =
     (case poll_step cfg s p of
        Inl e \<Rightarrow> s
      | Inr s' \<Rightarrow> process_audio_stream cfg s' ps)"

text \<open>Lines 214-216: the loop's variables at entry, the clock reading \<open>t0\<close>.\<close>

definition segmenter_init :: "real \<Rightarrow> segmenter" where
  "segmenter_init t0 =
     \<lparr>audio_buffer = [], last_audio_time = t0, processing = False, utterances = []\<rparr>"

subsection \<open>Groups of frames as the loop observes them\<close>

text \<open>
  A burst is one dequeued frame followed by the empty polls that come before the next
  frame. A group is some idle polls (taken while the buffer is empty), one or more
  bursts, and the empty poll that closes it. A group is delimited when no poll inside
  it sees more than the threshold of silence and the closing poll does.
\<close>

record burst =
  frame :: "sample list"
  arrived :: real
  polls :: "real list"

record frame_group =
  idle :: "real list"
  bursts :: "burst list"
  closing :: real

definition burst_events :: "burst \<Rightarrow> poll list" where
  "burst_events b = Got (frame b) (arrived b) # map Empty (polls b)"

definition group_events :: "frame_group \<Rightarrow> poll list" where
  "group_events g =
     map Empty (idle g) @ concat (map burst_events (bursts g)) @ [Empty (closing g)]"

definition group_samples :: "frame_group \<Rightarrow> sample list" where
  "group_samples g = concat (map frame (bursts g))"

definition quiet_burst :: "integration \<Rightarrow> burst \<Rightarrow> bool" where
  "quiet_burst cfg b =
     list_all (\<lambda>t. (t - arrived b) * 1000 \<le> silence_threshold_ms cfg) (polls b)"

definition delimited :: "integration \<Rightarrow> frame_group \<Rightarrow> bool" where
  "delimited cfg g =
     (bursts g \<noteq> [] \<and> list_all (quiet_burst cfg) (bursts g)
      \<and> (closing g - arrived (last (bursts g))) * 1000 > silence_threshold_ms cfg)"

text \<open>Line 238, negated: the utterance is long enough to be handed on.\<close>

definition long_enough :: "integration \<Rightarrow> sample list \<Rightarrow> bool" where
  "long_enough cfg u =
     (u \<noteq> [] \<and> \<not> real (length u) / real (sample_rate cfg) < min_audio_length cfg)"

section \<open>\<^verbatim>\<open>HowdyTTSTestServer\<close>: the WebSocket endpoint\<close>

text \<open>
  A parsed JSON value; an object is the association list of a Python \<^verbatim>\<open>dict\<close>
  (keys distinct). \<^verbatim>\<open>json.loads\<close> itself is a parameter of the model: for a text it
  gives the parsed value or the exception Python raises. On most invalid text that is
  \<^verbatim>\<open>json.JSONDecodeError\<close>; on text nested deeper than the interpreter's recursion
  limit it is \<^verbatim>\<open>RecursionError\<close>, and on an integer literal longer than the
  interpreter's digit limit a plain \<^verbatim>\<open>ValueError\<close>, whether or not the text is valid
  JSON otherwise.
\<close>

datatype json =
    JNull
  | JBool bool
  | JInt int
  | JReal real
  | JStr string
  | JArr "json list"
  | JObj "(string \<times> json) list"

text \<open>\<^verbatim>\<open>d.get(k)\<close> and \<^verbatim>\<open>d.get(k, default)\<close>.\<close>

definition dict_get :: "(string \<times> json) list \<Rightarrow> string \<Rightarrow> json" where
  "dict_get d k = (case map_of d k of None \<Rightarrow> JNull | Some v \<Rightarrow> v)"

definition dict_get_default :: "(string \<times> json) list \<Rightarrow> string \<Rightarrow> json \<Rightarrow> json" where
  "dict_get_default d k dflt = (case map_of d k of None \<Rightarrow> dflt | Some v \<Rightarrow> v)"

text \<open>\<^verbatim>\<open>len(v)\<close>: a \<^verbatim>\<open>TypeError\<close> on a value that has no length.\<close>

fun py_len :: "json \<Rightarrow> exn + nat" where
  "py_len (JStr s) = Inr (length s)"
| "py_len (JArr xs) = Inr (length xs)"
| "py_len (JObj d) = Inr (length d)"
| "py_len _ = Inl TypeError"

text \<open>
  How an f-string renders a value: a string as itself; for the other values the
  rendering is the parameter \<open>str_of\<close>.
\<close>

definition format_value :: "(json \<Rightarrow> string) \<Rightarrow> json \<Rightarrow> string" where
  "format_value str_of v = (case v of JStr s \<Rightarrow> s | _ \<Rightarrow> str_of v)"

datatype ws_msg = TEXT string | BINARY "byte list" | ERROR_FRAME | OTHER_FRAME

datatype ws_out = SendStr json | SendBytes "byte list"

record client_info =
  remote :: string
  connected_at :: string
  session_id :: string

text \<open>The server state of lines 59-61.\<close>

record test_server =
  registered_devices :: "(string \<times> json) list"
  active_sessions :: "json list"
  websocket_clients :: "nat list"

text \<open>
  The environment of a connection: the value of \<^verbatim>\<open>datetime.now().isoformat()\<close>, the
  JSON parser and the rendering of non-string values.
\<close>

record env =
  now :: string
  json_loads :: "string \<Rightarrow> exn + json"
  str_of :: "json \<Rightarrow> string"

definition message_type :: "ws_out \<Rightarrow> json" where
  "message_type m = (case m of SendStr (JObj d) \<Rightarrow> dict_get d ''type'' | _ \<Rightarrow> JNull)"

text \<open>
  \<^verbatim>\<open>handle_websocket_message\<close> (lines 311-391). It returns the server state, the
  messages sent on the socket in order, and the exception raised, if any:
  \<^verbatim>\<open>data.get\<close> raises \<^verbatim>\<open>AttributeError\<close> when the parsed value is not an object.
  The branches are the source's, in its order; there is none for
  \<^verbatim>\<open>tts_audio_start\<close>, \<^verbatim>\<open>tts_audio_chunk\<close> or \<^verbatim>\<open>tts_audio_end\<close>.
\<close>

definition handle_websocket_message ::
  "env \<Rightarrow> test_server \<Rightarrow> client_info \<Rightarrow> json \<Rightarrow> test_server \<times> ws_out list \<times> exn option"
where
  "handle_websocket_message e srv ci data =
     (case data of
        JObj d \<Rightarrow>
          (let msg_type = dict_get d ''type'' in
           if msg_type = JStr ''ping'' then
             (srv, [SendStr (JObj [(''type'', JStr ''pong''), (''timestamp'', JStr (now e))])], None)
           else if msg_type = JStr ''text_to_speech'' then
             (let text = dict_get_default d ''text'' (JStr []);
                  voice = dict_get_default d ''voice'' (JStr ''default'')
              in case py_len text of
                   Inl x \<Rightarrow> (srv, [], Some x)
                 | Inr n \<Rightarrow>
                     (srv,
                      [SendStr (JObj [(''type'', JStr ''tts_response''),
                                      (''text'', text),
                                      (''voice'', voice),
                                      (''audio_format'', JStr ''pcm_s16le''),
                                      (''sample_rate'', JInt 16000),
                                      (''duration_ms'', JInt (int n * 50)),
                                      (''status'', JStr ''completed''),
                                      (''timestamp'', JStr (now e))]),
                       SendBytes (replicate 1024 0)],
                      None))
           else if msg_type = JStr ''voice_start'' then
             (srv,
              [SendStr (JObj [(''type'', JStr ''voice_ready''),
                              (''session_id'', JStr (session_id ci)),
                              (''timestamp'', JStr (now e))])],
              None)
           else if msg_type = JStr ''voice_end'' then
             (let mock_text = dict_get_default d ''mock_result''
                    (JStr ''Hello, this is a test response from the HowdyTTS test server.'')
              in (srv,
                  [SendStr (JObj [(''type'', JStr ''voice_result''),
                                  (''text'', mock_text),
                                  (''confidence'', JReal 0.95),
                                  (''session_id'', JStr (session_id ci)),
                                  (''timestamp'', JStr (now e))])],
                  None))
           else if msg_type = JStr ''echo_test'' then
             (srv,
              [SendStr (JObj [(''type'', JStr ''echo_response''),
                              (''original_message'', data),
                              (''timestamp'', JStr (now e))])],
              None)
           else
             (srv,
              [SendStr (JObj [(''type'', JStr ''error''),
                              (''error'', JStr (''Unknown message type: '' @ format_value (str_of e) msg_type)),
                              (''timestamp'', JStr (now e))])],
              None))
      | _ \<Rightarrow> (srv, [], Some AttributeError))"

text \<open>\<^verbatim>\<open>handle_audio_data\<close> (lines 393-407): the acknowledgement of a binary frame.\<close>

definition handle_audio_data :: "env \<Rightarrow> client_info \<Rightarrow> byte list \<Rightarrow> ws_out list" where
  "handle_audio_data e ci audio_data =
     [SendStr (JObj [(''type'', JStr ''audio_received''),
                     (''bytes_received'', JInt (int (length audio_data))),
                     (''session_id'', JStr (session_id ci)),
                     (''timestamp'', JStr (now e))])]"

text \<open>Lines 288-292: the reply to a text frame that does not parse.\<close>

definition invalid_json_reply :: "env \<Rightarrow> ws_out" where
  "invalid_json_reply e =
     SendStr (JObj [(''type'', JStr ''error''),
                    (''error'', JStr ''Invalid JSON format''),
                    (''timestamp'', JStr (now e))])"

text \<open>
  How the \<^verbatim>\<open>async for\<close> loop of lines 282-299 ends: the peer closes (the iterator is
  exhausted), an error frame breaks out of it, an exception reaches the outer handler
  of line 301, or an exception that is not an \<^verbatim>\<open>Exception\<close> passes that handler too.
  In the last three cases the endpoint goes on to its \<^verbatim>\<open>finally\<close> clause and returns,
  which closes the connection. Writing to the socket is taken to succeed.
\<close>

datatype loop_end = PeerClosed | BrokeOnError | Caught exn | Escaped exn

definition leave_loop :: "exn \<Rightarrow> loop_end" where
  "leave_loop x = (if is_Exception x then Caught x else Escaped x)"

text \<open>
  The loop. The inner handler of line 287 catches \<^verbatim>\<open>json.JSONDecodeError\<close> only,
  so any other exception of the parser or of the message handler leaves the loop.
\<close>

fun message_loop ::
  "env \<Rightarrow> test_server \<Rightarrow> client_info \<Rightarrow> ws_msg list \<Rightarrow> test_server \<times> ws_out list \<times> loop_end"
where
  "message_loop e srv ci [] = (srv, [], PeerClosed)"
| "message_loop e srv ci (TEXT txt # ms) =
     (case json_loads e txt of
        Inl x \<Rightarrow>
          if x = JSONDecodeError then
            (case message_loop e srv ci ms of
               (srv', outs, r) \<Rightarrow> (srv', invalid_json_reply e # outs, r))
          else (srv, [], leave_loop x)
      | Inr data \<Rightarrow>
          (case handle_websocket_message e srv ci data of
             (srv1, outs1, Some x) \<Rightarrow>
               if x = JSONDecodeError then
                 (case message_loop e srv1 ci ms of
                    (srv', outs, r) \<Rightarrow> (srv', outs1 @ invalid_json_reply e # outs, r))
               else (srv1, outs1, leave_loop x)
           | (srv1, outs1, None) \<Rightarrow>
               (case message_loop e srv1 ci ms of
                  (srv', outs, r) \<Rightarrow> (srv', outs1 @ outs, r))))"
| "message_loop e srv ci (BINARY b # ms) =
     (case message_loop e srv ci ms of
        (srv', outs, r) \<Rightarrow> (srv', handle_audio_data e ci b @ outs, r))"
| "message_loop e srv ci (ERROR_FRAME # ms) = (srv, [], BrokeOnError)"
| "message_loop e srv ci (OTHER_FRAME # ms) = message_loop e srv ci ms"

subsection \<open>A sample connection\<close>

text \<open>
  A chunk message shaped as \<^verbatim>\<open>tools/validate_bidirectional_audio.py\<close> builds it
  (lines 128-143), an environment whose parser knows the text of that one message,
  raises \<^verbatim>\<open>RecursionError\<close> on a text of 2000 opening brackets, as CPython does at
  its default recursion limit of 1000, and rejects every other text as invalid, and a
  server with one connected client.
\<close>

definition chunk_message :: "(string \<times> json) list" where
  "chunk_message =
     [(''type'', JStr ''tts_audio_chunk''),
      (''chunk_info'',
         JObj [(''session_id'', JStr ''test_session_1''),
               (''chunk_sequence'', JInt 5),
               (''chunk_size'', JInt 640),
               (''is_final'', JBool False),
               (''audio_data'', JStr ''AAAA''),
               (''checksum'', JStr ''0000002a'')]),
      (''timing'',
         JObj [(''chunk_start_time_ms'', JInt 1000), (''chunk_duration_ms'', JInt 200)])]"

definition sample_env :: env where
  "sample_env =
     \<lparr>now = ''2025-01-01T00:00:00'',
      json_loads =
        (\<lambda>txt. if txt = ''CHUNK-5'' then Inr (JObj chunk_message)
               else if txt = replicate 2000 CHR ''['' then Inl RecursionError
               else Inl JSONDecodeError),
      str_of = (\<lambda>v. ''None'')\<rparr>"

definition sample_server :: test_server where
  "sample_server = \<lparr>registered_devices = [], active_sessions = [], websocket_clients = [0]\<rparr>"

definition sample_client :: client_info where
  "sample_client =
     \<lparr>remote = ''192.168.4.2'', connected_at = ''2025-01-01T00:00:00'',
      session_id = ''ws_session_1735689600_0''\<rparr>"

section \<open>The reply session protocol\<close>









section \<open>The wire format round trip\<close>

lemma uint_byte_lt: "uint (b :: byte) < 256"
  using uint_bounded [of b] by simp

lemma le_int_nonneg: "0 \<le> le_int bs"
  by (induction bs) auto

lemma le_int_bound: "le_int bs < 256 ^ length bs"
proof (induction bs)
  case Nil
  show ?case by simp
next
  case (Cons b bs)
  have "uint b < 256" by (rule uint_byte_lt)
  moreover have "le_int bs + 1 \<le> 256 ^ length bs" using Cons by simp
  ultimately show ?case by simp
qed

lemma le_bytes_le_int: "le_bytes (length bs) (le_int bs) = bs"
proof (induction bs)
  case Nil
  show ?case by simp
next
  case (Cons b bs)
  have lt: "uint b < 256" by (rule uint_byte_lt)
  have ge: "0 \<le> uint b" by simp
  have m: "(uint b + 256 * le_int bs) mod 256 = uint b"
    using lt ge by simp
  have d: "(uint b + 256 * le_int bs) div 256 = le_int bs"
    using lt ge by simp
  show ?case using Cons m d by simp
qed

lemma le_int_le_bytes: "0 \<le> x \<Longrightarrow> x < 256 ^ n \<Longrightarrow> le_int (le_bytes n x) = x"
proof (induction n arbitrary: x)
  case 0
  then show ?case by simp
next
  case (Suc n)
  have a: "0 \<le> x div 256" using Suc.prems by simp
  have "x < 256 * 256 ^ n" using Suc.prems by simp
  then have b: "x div 256 < 256 ^ n" by linarith
  have u: "uint (word_of_int (x mod 256) :: byte) = x mod 256"
    by (simp add: uint_word_of_int)
  show ?case using Suc.IH [OF a b] u by simp
qed

lemma length_le_bytes: "length (le_bytes n x) = n"
  by (induction n arbitrary: x) auto

lemma fits_le_int: "length bs = n \<Longrightarrow> fits n (le_int bs)"
  using le_int_nonneg [of bs] le_int_bound [of bs] by (auto simp: fits_def)

lemma split8:
  assumes "length (h :: byte list) = 8"
  shows "take 4 h @ take 2 (drop 4 h) @ take 2 (drop 6 h) = h"
proof -
  have "drop 2 (drop 4 h) = drop 6 h" by simp
  then have a: "take 2 (drop 4 h) @ drop 6 h = drop 4 h"
    using append_take_drop_id [of 2 "drop 4 h"] by simp
  have "take 2 (drop 6 h) = drop 6 h" using assms by simp
  then show ?thesis using a append_take_drop_id [of 4 h] by simp
qed

lemma pack_unpack:
  assumes "length h = 8"
  shows "\<exists>t q z. struct_unpack_IHH h = Inr (t, q, z) \<and> struct_pack_IHH t q z = Inr h \<and> fits 2 z"
proof -
  let ?a = "take 4 h" and ?b = "take 2 (drop 4 h)" and ?c = "take 2 (drop 6 h)"
  have la: "length ?a = 4" and lb: "length ?b = 2" and lc: "length ?c = 2"
    using assms by simp_all
  have u: "struct_unpack_IHH h = Inr (le_int ?a, le_int ?b, le_int ?c)"
    using assms by (simp add: struct_unpack_IHH_def)
  have fa: "fits 4 (le_int ?a)" by (rule fits_le_int [OF la])
  have fb: "fits 2 (le_int ?b)" by (rule fits_le_int [OF lb])
  have fc: "fits 2 (le_int ?c)" by (rule fits_le_int [OF lc])
  have ra: "le_bytes 4 (le_int ?a) = ?a" using le_bytes_le_int [of ?a] la by simp
  have rb: "le_bytes 2 (le_int ?b) = ?b" using le_bytes_le_int [of ?b] lb by simp
  have rc: "le_bytes 2 (le_int ?c) = ?c" using le_bytes_le_int [of ?c] lc by simp
  have p: "struct_pack_IHH (le_int ?a) (le_int ?b) (le_int ?c) = Inr h"
    using fa fb fc ra rb rc split8 [OF assms] by (simp add: struct_pack_IHH_def)
  show ?thesis using u p fc by blast
qed

lemma unpack_8:
  "length b = 8 \<Longrightarrow> struct_unpack_IHH b =
     Inr (le_int (take 4 b), le_int (take 2 (drop 4 b)), le_int (take 2 (drop 6 b)))"
  by (simp add: struct_unpack_IHH_def)

lemma unpack_pack:
  assumes "fits 4 t" "fits 2 q" "fits 2 z"
  shows "\<exists>h. struct_pack_IHH t q z = Inr h \<and> length h = 8 \<and> struct_unpack_IHH h = Inr (t, q, z)"
proof -
  let ?h = "le_bytes 4 t @ le_bytes 2 q @ le_bytes 2 z"
  have p: "struct_pack_IHH t q z = Inr ?h" using assms by (simp add: struct_pack_IHH_def)
  have l: "length ?h = 8" by (simp add: length_le_bytes)
  have a: "take 4 ?h = le_bytes 4 t" by (simp add: length_le_bytes)
  have b: "take 2 (drop 4 ?h) = le_bytes 2 q" by (simp add: length_le_bytes)
  have c: "take 2 (drop 6 ?h) = le_bytes 2 z" by (simp add: length_le_bytes)
  have r: "le_int (le_bytes 4 t) = t" "le_int (le_bytes 2 q) = q" "le_int (le_bytes 2 z) = z"
    using assms by (simp_all add: fits_def le_int_le_bytes)
  have "struct_unpack_IHH ?h =
      Inr (le_int (take 4 ?h), le_int (take 2 (drop 4 ?h)), le_int (take 2 (drop 6 ?h)))"
    by (rule unpack_8 [OF l])
  then have "struct_unpack_IHH ?h = Inr (t, q, z)"
    by (simp only: a b c r)
  then show ?thesis using p l by blast
qed

lemma uint_sample_of_int: "uint (word_of_int k :: sample) = k mod 65536"
  by (simp add: uint_word_of_int)

lemma uint_sample_of_bytes:
  "uint (word_of_int (uint (lo :: byte) + 256 * uint (hi :: byte)) :: sample) = uint lo + 256 * uint hi"
proof -
  have "uint lo < 256" "uint hi < 256" by (rule uint_byte_lt)+
  moreover have "0 \<le> uint lo" "0 \<le> uint hi" by simp_all
  ultimately have "0 \<le> uint lo + 256 * uint hi" "uint lo + 256 * uint hi < 65536" by linarith+
  then have "(uint lo + 256 * uint hi) mod 65536 = uint lo + 256 * uint hi"
    by (rule mod_pos_pos_trivial)
  then show ?thesis by (simp only: uint_sample_of_int)
qed

lemma sample_bytes:
  "word_of_int (uint (word_of_int (uint (lo :: byte) + 256 * uint (hi :: byte)) :: sample) mod 256) = lo"
  "word_of_int (uint (word_of_int (uint (lo :: byte) + 256 * uint (hi :: byte)) :: sample) div 256) = hi"
proof -
  have lt: "uint lo < 256" by (rule uint_byte_lt)
  have ge: "0 \<le> uint lo" by simp
  have m: "(uint lo + 256 * uint hi) mod 256 = uint lo" using lt ge by simp
  have d: "(uint lo + 256 * uint hi) div 256 = uint hi" using lt ge by simp
  show "word_of_int (uint (word_of_int (uint lo + 256 * uint hi) :: sample) mod 256) = lo"
    by (simp only: uint_sample_of_bytes m word_of_int_uint)
  show "word_of_int (uint (word_of_int (uint lo + 256 * uint hi) :: sample) div 256) = hi"
    by (simp only: uint_sample_of_bytes d word_of_int_uint)
qed

lemma tobytes_int16_of_bytes: "even (length bs) \<Longrightarrow> tobytes (int16_of_bytes bs) = bs"
proof (induction bs rule: int16_of_bytes.induct)
  case (1 lo hi bs)
  have "even (length bs)" using "1.prems" by simp
  then have "tobytes (int16_of_bytes bs) = bs" by (rule "1.IH")
  then show ?case by (simp only: int16_of_bytes.simps tobytes.simps sample_bytes)
next
  case (2 b)
  then show ?case by simp
next
  case 3
  show ?case by simp
qed

lemma frombuffer_even: "even (length b) \<Longrightarrow> frombuffer_int16 b = Inr (int16_of_bytes b)"
  by (simp add: frombuffer_int16_def even_iff_mod_2_eq_zero)

lemma frombuffer_odd: "odd (length b) \<Longrightarrow> frombuffer_int16 b = Inl ValueError"
  by (simp add: frombuffer_int16_def even_iff_mod_2_eq_zero)

lemma length_int16_of_bytes: "even (length bs) \<Longrightarrow> length (int16_of_bytes bs) * 2 = length bs"
  by (induction bs rule: int16_of_bytes.induct) auto

lemma length_tobytes: "length (tobytes xs) = 2 * length xs"
  by (induction xs) auto

lemma decode_valid:
  assumes "valid_packet p"
  shows "\<exists>t q. decode_packet p = Inr (t, q, int (length p) - 8, drop 8 p)
           \<and> struct_pack_IHH t q (int (length p) - 8) = Inr (take 8 p)"
proof -
  have len: "8 \<le> length p" using assms by (simp add: valid_packet_def)
  then have l8: "length (take 8 p) = 8" by simp
  obtain t q z where u: "struct_unpack_IHH (take 8 p) = Inr (t, q, z)"
    and pk: "struct_pack_IHH t q z = Inr (take 8 p)"
    using pack_unpack [OF l8] by blast
  have z: "z = int (length p) - 8"
    using assms u by (simp add: valid_packet_def header_of_def)
  have "payload_slice p z = drop 8 p"
    using z len by (simp add: payload_slice_def)
  then have "decode_packet p = Inr (t, q, z, drop 8 p)"
    using len u by (simp add: decode_packet_def)
  then show ?thesis using pk z by blast
qed

text \<open>
  Claim C3. A valid packet (at least 8 bytes, the size field of its header equal to the
  number of bytes after the header) survives decoding and re-encoding unchanged: the
  decoder does not fail, packing the three decoded header fields and appending the
  decoded payload gives back the packet byte for byte, and so does the path through the
  sample array (\<^verbatim>\<open>frombuffer\<close>, then \<^verbatim>\<open>len(chunk) * 2\<close> and \<^verbatim>\<open>tobytes\<close>)
  whenever the payload can be read as samples at all, that is, when the packet has even
  length.
\<close>

theorem decode_encode_roundtrip:
  assumes "valid_packet p"
  shows "case decode_packet p of
           Inl e \<Rightarrow> False
         | Inr (timestamp, sequence, data_size, payload) \<Rightarrow>
             encode_packet timestamp sequence data_size payload = Inr p
             \<and> (case frombuffer_int16 payload of
                    Inl e \<Rightarrow> odd (length p)
                  | Inr chunk \<Rightarrow> encode_chunk timestamp sequence chunk = Inr p)"
proof -
  have len: "8 \<le> length p" using assms by (simp add: valid_packet_def)
  obtain t q where d: "decode_packet p = Inr (t, q, int (length p) - 8, drop 8 p)"
    and pk: "struct_pack_IHH t q (int (length p) - 8) = Inr (take 8 p)"
    using decode_valid [OF assms] by blast
  have e1: "encode_packet t q (int (length p) - 8) (drop 8 p) = Inr p"
    using pk by (simp add: encode_packet_def)
  have e2: "case frombuffer_int16 (drop 8 p) of
              Inl e \<Rightarrow> odd (length p)
            | Inr chunk \<Rightarrow> encode_chunk t q chunk = Inr p"
  proof (cases "even (length (drop 8 p))")
    case True
    have "int (length (int16_of_bytes (drop 8 p)) * 2) = int (length p) - 8"
      using length_int16_of_bytes [OF True] len by simp
    then have "encode_chunk t q (int16_of_bytes (drop 8 p)) = Inr p"
      using e1 tobytes_int16_of_bytes [OF True] by (simp add: encode_chunk_def)
    then show ?thesis by (simp add: frombuffer_even [OF True])
  next
    case False
    then have "odd (length p)" using len by simp
    then show ?thesis by (simp add: frombuffer_odd [OF False])
  qed
  show ?thesis using d e1 e2 by simp
qed

text \<open>
  The theorem at a 12-byte packet: timestamp 1000, sequence 5, size 4, payload 1 2 3 4.
\<close>

theorem decode_encode_roundtrip_witness:
  "valid_packet [232, 3, 0, 0, 5, 0, 4, 0, 1, 2, 3, 4]
   \<and> decode_packet [232, 3, 0, 0, 5, 0, 4, 0, 1, 2, 3, 4] = Inr (1000, 5, 4, [1, 2, 3, 4])
   \<and> encode_packet 1000 5 4 [1, 2, 3, 4] = Inr [232, 3, 0, 0, 5, 0, 4, 0, 1, 2, 3, 4]
   \<and> encode_chunk 1000 5 [513, 1027] = Inr [232, 3, 0, 0, 5, 0, 4, 0, 1, 2, 3, 4]"
proof -
  have v: "valid_packet [232, 3, 0, 0, 5, 0, 4, 0, 1, 2, 3, 4]"
    by (simp add: valid_packet_def header_of_def struct_unpack_IHH_def)
  have d: "decode_packet [232, 3, 0, 0, 5, 0, 4, 0, 1, 2, 3, 4] = Inr (1000, 5, 4, [1, 2, 3, 4])"
    by (simp add: decode_packet_def struct_unpack_IHH_def payload_slice_def)
  have f: "frombuffer_int16 [1, 2, 3, 4] = Inr [513, 1027]"
    by (simp add: frombuffer_int16_def)
  show ?thesis
    using v d f decode_encode_roundtrip [OF v] by simp
qed

section \<open>The receive loop\<close>

lemma save_client_address_addr [simp]: "client_address (save_client_address s a) = Some a"
  by (simp add: save_client_address_def)

lemma save_client_address_queue [simp]: "audio_queue (save_client_address s a) = audio_queue s"
  by (simp add: save_client_address_def)

lemma save_client_address_sent [simp]: "sent (save_client_address s a) = sent s"
  by (simp add: save_client_address_def)

lemma save_client_address_errors [simp]: "error_count (save_client_address s a) = error_count s"
  by (simp add: save_client_address_def error_count_def)

lemma save_client_address_notes:
  "connect_notifications (save_client_address s a) =
     connect_notifications s @ (if client_address s = Some a then [] else [a])"
  by (simp add: save_client_address_def connect_notifications_def)

lemma save_client_address_same: "client_address s = Some a \<Longrightarrow> save_client_address s a = s"
  by (simp add: save_client_address_def)

lemma save_client_address_new:
  "client_address s \<noteq> Some a \<Longrightarrow>
     save_client_address s a = s\<lparr>client_address := Some a, log := log s @ [LogConnected a]\<rparr>"
  by (simp add: save_client_address_def)

lemma try_receive_short:
  "length data < 8 \<Longrightarrow> try_receive s (Recv data a) = (save_client_address s a, None)"
  by (simp add: Let_def)

lemma try_receive_odd:
  assumes "8 \<le> length data" and "struct_unpack_IHH (take 8 data) = Inr (t, q, z)"
    and "odd (length (payload_slice data z))"
  shows "try_receive s (Recv data a) = (save_client_address s a, Some ValueError)"
  using assms by (simp add: Let_def frombuffer_odd)

lemma try_receive_even:
  assumes "8 \<le> length data" and "struct_unpack_IHH (take 8 data) = Inr (t, q, z)"
    and "even (length (payload_slice data z))"
  shows "try_receive s (Recv data a) =
           ((save_client_address s a)
              \<lparr>audio_queue := audio_queue s @ [int16_of_bytes (payload_slice data z)]\<rparr>, None)"
  using assms by (simp add: Let_def frombuffer_even)

lemma unpack_take8:
  "8 \<le> length data \<Longrightarrow> \<exists>t q z. struct_unpack_IHH (take 8 data) = Inr (t, q, z)"
  by (simp add: struct_unpack_IHH_def)

declare try_receive.simps [simp del]

lemma try_receive_datagram:
  "\<exists>s' r. try_receive s (Recv data a) = (s', r)
     \<and> (r = None \<or> r = Some ValueError)
     \<and> client_address s' = Some a
     \<and> log s' = log (save_client_address s a)"
proof (cases "length data < 8")
  case True
  then show ?thesis by (simp add: try_receive_short)
next
  case False
  then have len: "8 \<le> length data" by simp
  then obtain t q z where u: "struct_unpack_IHH (take 8 data) = Inr (t, q, z)"
    using unpack_take8 by blast
  show ?thesis
  proof (cases "even (length (payload_slice data z))")
    case True
    show ?thesis by (simp add: try_receive_even [OF len u True])
  next
    case False
    show ?thesis by (simp add: try_receive_odd [OF len u False])
  qed
qed

lemma receive_iteration_datagram:
  "\<exists>s'. receive_iteration s (Recv data a) = Inr s'
     \<and> client_address s' = Some a
     \<and> connect_notifications s' =
         connect_notifications s @ (if client_address s = Some a then [] else [a])"
proof -
  obtain s1 r where t: "try_receive s (Recv data a) = (s1, r)"
    and r: "r = None \<or> r = Some ValueError"
    and c: "client_address s1 = Some a"
    and l: "log s1 = log (save_client_address s a)"
    using try_receive_datagram by blast
  have n: "connect_notifications s1 =
      connect_notifications s @ (if client_address s = Some a then [] else [a])"
    using l save_client_address_notes [of s a] by (simp add: connect_notifications_def)
  from r show ?thesis
  proof
    assume "r = None"
    then show ?thesis using t c n by (simp add: receive_iteration_def)
  next
    assume "r = Some ValueError"
    then show ?thesis using t c n
      by (simp add: receive_iteration_def connect_notifications_def)
  qed
qed

lemma receive_iteration_raises:
  "receive_iteration s (RecvRaises e) =
     (if e = SocketTimeout then Inr s
      else if is_Exception e then Inr (s\<lparr>log := log s @ [LogReceiveError e]\<rparr>)
      else Inl e)"
  by (simp add: receive_iteration_def try_receive.simps)

lemma receive_audio_last_source:
  "case receive_audio s evs of
     Inl e \<Rightarrow> \<not> is_Exception e
   | Inr s' \<Rightarrow> client_address s' = last_source (client_address s) evs"
proof (induction evs arbitrary: s)
  case Nil
  show ?case by simp
next
  case (Cons ev evs)
  show ?case
  proof (cases ev)
    case (Recv data a)
    obtain s1 where i: "receive_iteration s (Recv data a) = Inr s1"
      and c: "client_address s1 = Some a"
      using receive_iteration_datagram by blast
    have ls: "last_source (client_address s) (ev # evs) = last_source (client_address s1) evs"
      using c Recv by simp
    have ra: "receive_audio s (ev # evs) = receive_audio s1 evs"
      using i Recv by simp
    show ?thesis unfolding ls ra by (rule Cons.IH)
  next
    case (RecvRaises e)
    have ls: "last_source (client_address s) (ev # evs) = last_source (client_address s) evs"
      using RecvRaises by simp
    show ?thesis
    proof (cases "e = SocketTimeout")
      case True
      then have ra: "receive_audio s (ev # evs) = receive_audio s evs"
        using RecvRaises by (simp add: receive_iteration_raises)
      show ?thesis unfolding ls ra by (rule Cons.IH)
    next
      case False
      show ?thesis
      proof (cases "is_Exception e")
        case True
        let ?s1 = "s\<lparr>log := log s @ [LogReceiveError e]\<rparr>"
        have ra: "receive_audio s (ev # evs) = receive_audio ?s1 evs"
          using True False RecvRaises by (simp add: receive_iteration_raises)
        have ls': "last_source (client_address s) (ev # evs) = last_source (client_address ?s1) evs"
          using RecvRaises by simp
        show ?thesis unfolding ls' ra by (rule Cons.IH)
      next
        case False
        then have "receive_audio s (ev # evs) = Inl e"
          using RecvRaises \<open>e \<noteq> SocketTimeout\<close> by (simp add: receive_iteration_raises)
        then show ?thesis using False by simp
      qed
    qed
  qed
qed

lemma receive_audio_datagrams:
  "list_all is_datagram evs \<Longrightarrow> \<exists>s'. receive_audio s evs = Inr s'"
proof (induction evs arbitrary: s)
  case Nil
  show ?case by simp
next
  case (Cons ev evs)
  then obtain data a where ev: "ev = Recv data a" by (cases ev) auto
  obtain s1 where i: "receive_iteration s (Recv data a) = Inr s1"
    using receive_iteration_datagram by blast
  have "list_all is_datagram evs" using Cons.prems by simp
  then show ?case using Cons.IH [of s1] i ev by simp
qed

text \<open>
  Claim C5, as stated, fails: a 3-byte datagram from the bound client leaves the server
  exactly as it was. Nothing is counted and nothing is logged; the class has no error
  counter, and the only error record it ever writes comes from the \<^verbatim>\<open>except\<close> clause,
  which a short datagram does not reach.
\<close>

theorem short_datagram_counts_nothing:
  "receive_iteration (server_init\<lparr>client_address := Some (''192.168.4.2'', 8002)\<rparr>)
       (Recv [1, 2, 3] (''192.168.4.2'', 8002))
     = Inr (server_init\<lparr>client_address := Some (''192.168.4.2'', 8002)\<rparr>)
   \<and> error_count (server_init\<lparr>client_address := Some (''192.168.4.2'', 8002)\<rparr>) = 0"
  by (simp add: receive_iteration_def try_receive.simps save_client_address_def
      server_init_def error_count_def)

text \<open>
  Claim C5, amended. A datagram shorter than the 8-byte header is dropped silently: the
  iteration raises nothing, enqueues no frame, sends nothing and records no error (the
  number of error records is unchanged); its only effect is the endpoint tracking of
  lines 53-55; and the loop goes on with the next event.
\<close>

theorem short_datagram_discarded:
  assumes "length data < 8"
  shows "receive_iteration s (Recv data a) = Inr (save_client_address s a)
       \<and> audio_queue (save_client_address s a) = audio_queue s
       \<and> sent (save_client_address s a) = sent s
       \<and> error_count (save_client_address s a) = error_count s
       \<and> receive_audio s (Recv data a # rest) = receive_audio (save_client_address s a) rest"
proof -
  have "receive_iteration s (Recv data a) = Inr (save_client_address s a)"
    using assms by (simp add: receive_iteration_def try_receive_short)
  then show ?thesis by simp
qed

theorem short_datagram_discarded_witness:
  "length [1, 2, 3 :: byte] < 8
   \<and> receive_iteration server_init (Recv [1, 2, 3] (''192.168.4.2'', 8002))
       = Inr (server_init\<lparr>client_address := Some (''192.168.4.2'', 8002),
                           log := [LogConnected (''192.168.4.2'', 8002)]\<rparr>)
   \<and> receive_audio server_init [Recv [1, 2, 3] (''192.168.4.2'', 8002)]
       = Inr (server_init\<lparr>client_address := Some (''192.168.4.2'', 8002),
                           log := [LogConnected (''192.168.4.2'', 8002)]\<rparr>)"
proof -
  have l: "length [1, 2, 3 :: byte] < 8" by simp
  show ?thesis
    using short_datagram_discarded [OF l, of server_init "(''192.168.4.2'', 8002)" "[]"]
    by (simp add: save_client_address_def server_init_def)
qed

text \<open>
  Claim C7. The server holds at most one endpoint (the field is an optional address).
  An iteration that receives a datagram never fails, leaves the endpoint equal to the
  datagram's source, and announces a connection exactly when that source differs from
  the endpoint held before. Over any run of the loop, the endpoint at the end is the
  source of the most recent datagram (or the initial one if none arrived); the loop is
  only ever left by an exception that is not an \<^verbatim>\<open>Exception\<close>.
\<close>

theorem single_active_endpoint:
  "(case receive_iteration s (Recv data a) of
      Inl e \<Rightarrow> False
    | Inr s' \<Rightarrow>
        client_address s' = Some a
        \<and> connect_notifications s' =
            connect_notifications s @ (if client_address s = Some a then [] else [a]))
   \<and> (case receive_audio s evs of
        Inl e \<Rightarrow> \<not> is_Exception e
      | Inr s' \<Rightarrow> client_address s' = last_source (client_address s) evs)"
proof -
  obtain s1 where "receive_iteration s (Recv data a) = Inr s1"
    and "client_address s1 = Some a"
    and "connect_notifications s1 =
           connect_notifications s @ (if client_address s = Some a then [] else [a])"
    using receive_iteration_datagram by blast
  then show ?thesis using receive_audio_last_source [of s evs] by simp
qed

text \<open>
  The theorem on a run of three events: datagrams from two addresses, then a timeout.
\<close>

theorem single_active_endpoint_witness:
  "receive_audio server_init
       [Recv [1, 2, 3] (''192.168.4.2'', 8002), Recv [] (''192.168.4.7'', 8002),
        RecvRaises SocketTimeout]
     = Inr (server_init\<lparr>client_address := Some (''192.168.4.7'', 8002),
             log := [LogConnected (''192.168.4.2'', 8002), LogConnected (''192.168.4.7'', 8002)]\<rparr>)
   \<and> last_source None
       [Recv [1, 2, 3] (''192.168.4.2'', 8002), Recv [] (''192.168.4.7'', 8002),
        RecvRaises SocketTimeout] = Some (''192.168.4.7'', 8002)"
  using single_active_endpoint [where s = server_init and data = "[]"
      and a = "(''192.168.4.7'', 8002)"
      and evs = "[Recv [1, 2, 3] (''192.168.4.2'', 8002), Recv [] (''192.168.4.7'', 8002),
        RecvRaises SocketTimeout]"]
  by (simp add: receive_iteration_def try_receive.simps save_client_address_def server_init_def)

text \<open>
  Claim C9. The endpoint is rebound before the header is looked at: whatever the
  datagram, the state in which the \<^verbatim>\<open>try\<close> block ends has the datagram's source as
  endpoint and, for a new source, the connect record in the log. In particular a
  datagram shorter than the header from a new address rebinds the endpoint and
  announces the connection, and that is all it does (no frame is enqueued).
\<close>

theorem endpoint_rebinds_before_validation:
  assumes "length data < 8" and "client_address s \<noteq> Some a"
  shows "receive_iteration s (Recv data a)
           = Inr (s\<lparr>client_address := Some a, log := log s @ [LogConnected a]\<rparr>)
       \<and> client_address (fst (try_receive s (Recv d a))) = Some a
       \<and> log (fst (try_receive s (Recv d a))) = log s @ [LogConnected a]"
proof -
  have "receive_iteration s (Recv data a) = Inr (save_client_address s a)"
    using assms(1) by (simp add: receive_iteration_def try_receive_short)
  then have r: "receive_iteration s (Recv data a)
      = Inr (s\<lparr>client_address := Some a, log := log s @ [LogConnected a]\<rparr>)"
    by (simp add: save_client_address_new [OF assms(2)])
  obtain s1 r1 where "try_receive s (Recv d a) = (s1, r1)"
    and "client_address s1 = Some a"
    and "log s1 = log (save_client_address s a)"
    using try_receive_datagram by blast
  then show ?thesis using r by (simp add: save_client_address_new [OF assms(2)])
qed

theorem endpoint_rebinds_before_validation_witness:
  "length [1, 2, 3 :: byte] < 8
   \<and> client_address (server_init\<lparr>client_address := Some (''192.168.4.2'', 8002)\<rparr>)
       \<noteq> Some (''192.168.4.7'', 8002)
   \<and> receive_iteration (server_init\<lparr>client_address := Some (''192.168.4.2'', 8002)\<rparr>)
         (Recv [1, 2, 3] (''192.168.4.7'', 8002))
       = Inr (server_init\<lparr>client_address := Some (''192.168.4.7'', 8002),
                           log := [LogConnected (''192.168.4.7'', 8002)]\<rparr>)"
proof -
  have l: "length [1, 2, 3 :: byte] < 8" by simp
  have n: "client_address (server_init\<lparr>client_address := Some (''192.168.4.2'', 8002)\<rparr>)
             \<noteq> Some (''192.168.4.7'', 8002)"
    by simp
  show ?thesis
    using endpoint_rebinds_before_validation [OF l n, of "[]"] n
    by (simp add: server_init_def)
qed

text \<open>
  Claim C10. A datagram with a full header whose payload slice has odd length makes
  \<^verbatim>\<open>np.frombuffer\<close> raise \<^verbatim>\<open>ValueError\<close>; the handler of line 68 catches it and
  logs it, no frame is enqueued, and the loop goes on with the next event. No datagram
  at all ends the loop: every iteration that receives one returns a state, and a run
  over datagrams only always returns.
\<close>

theorem odd_payload_is_caught:
  assumes "8 \<le> length data"
    and "struct_unpack_IHH (take 8 data) = Inr (t, q, z)"
    and "odd (length (payload_slice data z))"
    and "list_all is_datagram evs"
  shows "try_receive s (Recv data a) = (save_client_address s a, Some ValueError)
       \<and> receive_iteration s (Recv data a)
           = Inr ((save_client_address s a)
                    \<lparr>log := log (save_client_address s a) @ [LogReceiveError ValueError]\<rparr>)
       \<and> audio_queue (save_client_address s a) = audio_queue s
       \<and> receive_audio s (Recv data a # rest)
           = receive_audio ((save_client_address s a)
                    \<lparr>log := log (save_client_address s a) @ [LogReceiveError ValueError]\<rparr>) rest
       \<and> (\<exists>s'. receive_iteration s (Recv d b) = Inr s')
       \<and> (\<exists>s'. receive_audio s evs = Inr s')"
proof -
  have t: "try_receive s (Recv data a) = (save_client_address s a, Some ValueError)"
    by (rule try_receive_odd [OF assms(1-3)])
  then have i: "receive_iteration s (Recv data a)
      = Inr ((save_client_address s a)
               \<lparr>log := log (save_client_address s a) @ [LogReceiveError ValueError]\<rparr>)"
    by (simp add: receive_iteration_def)
  have any: "\<exists>s'. receive_iteration s (Recv d b) = Inr s'"
    using receive_iteration_datagram [of s d b] by blast
  have run: "\<exists>s'. receive_audio s evs = Inr s'"
    by (rule receive_audio_datagrams [OF assms(4)])
  show ?thesis using t i any run by simp
qed

theorem odd_payload_is_caught_witness:
  "8 \<le> length [232, 3, 0, 0, 5, 0, 3, 0, 1, 2, 3 :: byte]
   \<and> struct_unpack_IHH (take 8 [232, 3, 0, 0, 5, 0, 3, 0, 1, 2, 3]) = Inr (1000, 5, 3)
   \<and> odd (length (payload_slice [232, 3, 0, 0, 5, 0, 3, 0, 1, 2, 3] 3))
   \<and> receive_iteration (server_init\<lparr>client_address := Some (''192.168.4.2'', 8002)\<rparr>)
         (Recv [232, 3, 0, 0, 5, 0, 3, 0, 1, 2, 3] (''192.168.4.2'', 8002))
       = Inr (server_init\<lparr>client_address := Some (''192.168.4.2'', 8002),
                           log := [LogReceiveError ValueError]\<rparr>)"
proof -
  have l: "8 \<le> length [232, 3, 0, 0, 5, 0, 3, 0, 1, 2, 3 :: byte]" by simp
  have u: "struct_unpack_IHH (take 8 [232, 3, 0, 0, 5, 0, 3, 0, 1, 2, 3]) = Inr (1000, 5, 3)"
    by (simp add: struct_unpack_IHH_def)
  have o: "odd (length (payload_slice [232, 3, 0, 0, 5, 0, 3, 0, 1, 2, 3] 3))"
    by (simp add: payload_slice_def)
  have e: "list_all is_datagram []" by simp
  show ?thesis
    using l u o
      odd_payload_is_caught [OF l u o e,
        of "server_init\<lparr>client_address := Some (''192.168.4.2'', 8002)\<rparr>"
           "(''192.168.4.2'', 8002)" "[]" "[]" "(''192.168.4.2'', 8002)"]
    by (simp add: save_client_address_def server_init_def)
qed

section \<open>The reply dispatcher\<close>

lemma length_chunk_at: "length (chunk_at xs i) = min chunk_size (length xs - i)"
  by (simp add: chunk_at_def)

lemma length_padded: "length (padded (chunk_at xs i)) = chunk_size"
  by (simp add: padded_def np_pad_def length_chunk_at)

lemma py_range_unfold:
  "start < stop \<Longrightarrow> 0 < step \<Longrightarrow>
     py_range start stop step = start # py_range (start + step) stop step"
  by simp

lemma py_range_done: "stop \<le> start \<Longrightarrow> py_range start stop step = []"
  by simp

declare py_range.simps [simp del]

lemma length_py_range_step:
  "step = 320 \<Longrightarrow> length (py_range start stop step) = (stop - start + 319) div 320"
proof (induction start stop step rule: py_range.induct)
  case (1 start stop step)
  show ?case
  proof (cases "stop \<le> start")
    case True
    then show ?thesis by (simp add: py_range_done)
  next
    case False
    then have unf: "py_range start stop step = start # py_range (start + step) stop step"
      using "1.prems" by (simp add: py_range_unfold)
    have "length (py_range (start + step) stop step) = (stop - (start + step) + 319) div 320"
      using "1.IH" "1.prems" False by simp
    then have "length (py_range start stop step) = Suc ((stop - (start + 320) + 319) div 320)"
      using unf "1.prems" by simp
    also have "\<dots> = (stop - start + 319) div 320"
    proof (cases "start + 320 \<le> stop")
      case True
      then have "stop - start + 319 = (stop - (start + 320) + 319) + 320" by simp
      then show ?thesis by (simp only: div_add_self2)
    next
      case False
      then have a: "stop - (start + 320) = 0" by simp
      have "320 \<le> stop - start + 319" "stop - start + 319 < 2 * 320"
        using False \<open>\<not> stop \<le> start\<close> by simp_all
      then have "(stop - start + 319) div 320 = 1"
        by (simp add: div_nat_eqI)
      then show ?thesis using a by simp
    qed
    finally show ?thesis .
  qed
qed

lemma nth_py_range_step:
  "step = 320 \<Longrightarrow> k < length (py_range start stop step) \<Longrightarrow>
     py_range start stop step ! k = start + k * 320"
proof (induction start stop step arbitrary: k rule: py_range.induct)
  case (1 start stop step)
  show ?case
  proof (cases "stop \<le> start")
    case True
    then show ?thesis using "1.prems" by (simp add: py_range_done)
  next
    case False
    then have unf: "py_range start stop step = start # py_range (start + step) stop step"
      using "1.prems" by (simp add: py_range_unfold)
    show ?thesis
    proof (cases k)
      case 0
      then show ?thesis using unf by simp
    next
      case (Suc j)
      then have "j < length (py_range (start + step) stop step)"
        using "1.prems" unf by simp
      then have "py_range (start + step) stop step ! j = start + step + j * 320"
        using "1.IH" "1.prems" False by simp
      then show ?thesis using unf Suc "1.prems" by simp
    qed
  qed
qed

lemma length_py_range:
  "length (py_range 0 n chunk_size) = (n + 319) div 320"
  using length_py_range_step [of chunk_size 0 n] by (simp add: chunk_size_def)

lemma nth_py_range:
  "k < (n + 319) div 320 \<Longrightarrow> py_range 0 n chunk_size ! k = k * chunk_size"
  using nth_py_range_step [of chunk_size k 0 n] length_py_range [of n]
  by (simp add: chunk_size_def)

lemma pack_reply_header:
  assumes "fits 4 t" and "k < 65536"
  shows "\<exists>h. struct_pack_IHH t (int k) 640 = Inr h \<and> length h = 8
           \<and> struct_unpack_IHH h = Inr (t, int k, 640)"
proof -
  have "fits 2 (int k)" using assms(2) by (simp add: fits_def)
  moreover have "fits 2 640" by (simp add: fits_def)
  ultimately show ?thesis using unpack_pack [OF assms(1)] by blast
qed

lemma send_chunks_all:
  assumes "\<And>k. sequence \<le> k \<Longrightarrow> k < sequence + length idxs \<Longrightarrow> fits 4 (clock k) \<and> k < 65536"
  shows "send_chunks clock a xs sequence idxs =
           (map (\<lambda>j. (projr (struct_pack_IHH (clock (sequence + j)) (int (sequence + j)) 640)
                        @ tobytes (padded (chunk_at xs (idxs ! j))), a))
                [0..<length idxs], None)"
  using assms
proof (induction idxs arbitrary: sequence)
  case Nil
  show ?case by simp
next
  case (Cons i rest)
  have "fits 4 (clock sequence) \<and> sequence < 65536"
    using Cons.prems [of sequence] by simp
  then obtain h where h: "struct_pack_IHH (clock sequence) (int sequence) 640 = Inr h"
    using pack_reply_header by blast
  have ih: "send_chunks clock a xs (Suc sequence) rest =
           (map (\<lambda>j. (projr (struct_pack_IHH (clock (Suc sequence + j)) (int (Suc sequence + j)) 640)
                        @ tobytes (padded (chunk_at xs (rest ! j))), a))
                [0..<length rest], None)"
    using Cons.prems by (intro Cons.IH) auto
  have up: "[0..<length (i # rest)] = 0 # map Suc [0..<length rest]"
    by (simp add: upt_conv_Cons map_Suc_upt del: upt_Suc)
  show ?case
    unfolding up using h ih
    by (simp add: Let_def length_padded chunk_size_def comp_def ac_simps)
qed

lemma header_of_reply:
  assumes "fits 4 t" and "k < 65536"
  shows "header_of (projr (struct_pack_IHH t (int k) 640) @ payload) = Inr (t, int k, 640)"
    and "drop 8 (projr (struct_pack_IHH t (int k) 640) @ payload) = payload"
    and "length (projr (struct_pack_IHH t (int k) 640) @ payload) = 8 + length payload"
proof -
  obtain h where h: "struct_pack_IHH t (int k) 640 = Inr h" and l: "length h = 8"
    and u: "struct_unpack_IHH h = Inr (t, int k, 640)"
    using pack_reply_header [OF assms] by blast
  show "header_of (projr (struct_pack_IHH t (int k) 640) @ payload) = Inr (t, int k, 640)"
    using h l u by (simp add: header_of_def)
  show "drop 8 (projr (struct_pack_IHH t (int k) 640) @ payload) = payload"
    using h l by simp
  show "length (projr (struct_pack_IHH t (int k) 640) @ payload) = 8 + length payload"
    using h l by simp
qed

lemma send_audio_bound:
  assumes bound: "client_address s = Some a"
    and xs: "to_int16 conv audio = xs"
    and seqs: "(length xs + 319) div 320 \<le> 65536"
    and stamps: "\<And>k. k < (length xs + 319) div 320 \<Longrightarrow> fits 4 (clock k)"
  shows "send_audio conv clock s audio =
           (s\<lparr>log := log s @ [LogSending (length xs)],
              sent := sent s @
                map (\<lambda>k. (projr (struct_pack_IHH (clock k) (int k) 640)
                             @ tobytes (padded (chunk_at xs (k * chunk_size))), a))
                    [0..<(length xs + 319) div 320]\<rparr>, None)"
proof -
  let ?n = "(length xs + 319) div 320"
  let ?idxs = "py_range 0 (length xs) chunk_size"
  have n: "length ?idxs = ?n" by (rule length_py_range)
  have ok: "\<And>k. 0 \<le> k \<Longrightarrow> k < 0 + length ?idxs \<Longrightarrow> fits 4 (clock k) \<and> k < 65536"
    using n seqs stamps by simp
  have "send_chunks clock a xs 0 ?idxs =
      (map (\<lambda>j. (projr (struct_pack_IHH (clock (0 + j)) (int (0 + j)) 640)
                   @ tobytes (padded (chunk_at xs (?idxs ! j))), a))
           [0..<length ?idxs], None)"
    by (rule send_chunks_all [OF ok])
  also have "map (\<lambda>j. (projr (struct_pack_IHH (clock (0 + j)) (int (0 + j)) 640)
                   @ tobytes (padded (chunk_at xs (?idxs ! j))), a))
           [0..<length ?idxs]
      = map (\<lambda>k. (projr (struct_pack_IHH (clock k) (int k) 640)
                   @ tobytes (padded (chunk_at xs (k * chunk_size))), a))
           [0..<?n]"
    unfolding n by (rule map_cong) (simp_all add: nth_py_range)
  finally have sc: "send_chunks clock a xs 0 ?idxs =
      (map (\<lambda>k. (projr (struct_pack_IHH (clock k) (int k) 640)
                   @ tobytes (padded (chunk_at xs (k * chunk_size))), a))
           [0..<?n], None)" .
  show ?thesis
    using bound xs sc by (simp add: send_audio_def Let_def)
qed

lemma last_chunk_length:
  assumes "0 < (n :: nat)"
  shows "min 320 (n - ((n + 319) div 320 - 1) * 320) = (if n mod 320 = 0 then 320 else n mod 320)"
proof -
  obtain q r where qr: "n = q * 320 + r" "r < 320"
    by (metis mod_less_divisor div_mult_mod_eq zero_less_numeral)
  show ?thesis
  proof (cases "r = 0")
    case True
    then have "0 < q" using assms qr by simp
    have "(n + 319) div 320 = q" using qr True by simp
    moreover have "n mod 320 = 0" using qr True by simp
    moreover have "n - (q - 1) * 320 = 320"
      using qr True \<open>0 < q\<close> by (simp add: algebra_simps diff_mult_distrib)
    ultimately show ?thesis by simp
  next
    case False
    have "n + 319 = (q + 1) * 320 + (r - 1)" using qr False by simp
    moreover have "r - 1 < 320" using qr by simp
    ultimately have "(n + 319) div 320 = q + 1"
      by (metis div_mult_self3 div_less add_0 zero_neq_numeral add.commute)
    moreover have "n mod 320 = r" using qr by simp
    moreover have "n - q * 320 = r" using qr by simp
    ultimately show ?thesis using False qr by simp
  qed
qed

text \<open>
  Claim C6. With no client bound, \<^verbatim>\<open>send_audio\<close> returns normally having done one
  thing only: it wrote the warning record. The endpoint, the frame queue and the
  datagrams sent are what they were, whatever the waveform and the clock.
\<close>

theorem send_audio_unbound_is_noop:
  assumes "client_address s = None"
  shows "send_audio conv clock s audio = (s\<lparr>log := log s @ [LogNoClient]\<rparr>, None)
       \<and> level_of LogNoClient = WARNING
       \<and> sent (fst (send_audio conv clock s audio)) = sent s
       \<and> client_address (fst (send_audio conv clock s audio)) = client_address s
       \<and> audio_queue (fst (send_audio conv clock s audio)) = audio_queue s"
  using assms by (simp add: send_audio_def)

theorem send_audio_unbound_is_noop_witness:
  "client_address server_init = None
   \<and> send_audio (\<lambda>x. x) (\<lambda>k. 1000) server_init (Int16Array [7, 8, 9])
       = (server_init\<lparr>log := [LogNoClient]\<rparr>, None)"
proof -
  have n: "client_address server_init = None" by (simp add: server_init_def)
  show ?thesis
    using n send_audio_unbound_is_noop [OF n, of "\<lambda>x. x" "\<lambda>k. 1000" "Int16Array [7, 8, 9]"]
    by (simp add: server_init_def)
qed

subsection \<open>When the header fields fit\<close>

text \<open>
  The size field is that of the padded chunk. For a reply of one sample, sent at a clock
  reading of 1000 to a bound client, exactly one datagram goes out, and the size field
  of its header is 640, the byte length of the chunk after padding (line 96 packs
  \<^verbatim>\<open>len(chunk) * 2\<close> after line 92 has padded the chunk).
\<close>

lemma final_chunk_declares_padded_size:
  "snd (send_audio (\<lambda>x. x) (\<lambda>k. 1000)
          (server_init\<lparr>client_address := Some (''192.168.4.2'', 8002)\<rparr>) (Int16Array [7])) = None
   \<and> map (\<lambda>p. header_of (fst p))
        (sent (fst (send_audio (\<lambda>x. x) (\<lambda>k. 1000)
          (server_init\<lparr>client_address := Some (''192.168.4.2'', 8002)\<rparr>) (Int16Array [7]))))
       = [Inr (1000, 0, 640)]"
proof -
  let ?s = "server_init\<lparr>client_address := Some (''192.168.4.2'', 8002)\<rparr>"
  have b: "client_address ?s = Some (''192.168.4.2'', 8002)" by simp
  have x: "to_int16 (\<lambda>x. x) (Int16Array [7]) = [7]" by (simp add: to_int16_def)
  have f: "fits 4 1000" by (simp add: fits_def)
  have h: "header_of (projr (struct_pack_IHH 1000 (int 0) 640)
             @ tobytes (padded (chunk_at [7] (0 * chunk_size)))) = Inr (1000, int 0, 640)"
    by (rule header_of_reply(1) [OF f]) simp
  have "send_audio (\<lambda>x. x) (\<lambda>k. 1000) ?s (Int16Array [7]) =
      (?s\<lparr>log := log ?s @ [LogSending (length [7 :: sample])],
          sent := sent ?s @
            map (\<lambda>k. (projr (struct_pack_IHH 1000 (int k) 640)
                         @ tobytes (padded (chunk_at [7] (k * chunk_size))),
                       (''192.168.4.2'', 8002)))
                [0..<(length [7 :: sample] + 319) div 320]\<rparr>, None)"
    by (rule send_audio_bound [OF b x]) (simp_all add: f)
  then show ?thesis using h by (simp add: server_init_def)
qed

text \<open>
  The chunking itself. Let the client be bound, the reply have \<open>L > 0\<close> samples after
  conversion, and let the header fields fit (at most 65536 chunks, every timestamp read
  below \<open>2^32\<close>, which no clock of the present day gives). Then \<^verbatim>\<open>send_audio\<close>
  returns normally after handing \<open>ceil(L / 320)\<close> datagrams to the socket, all
  addressed to the client; the \<open>k\<close>-th carries sequence number \<open>k\<close>, the timestamp
  read in its iteration, the size field 640 and as payload the bytes of the \<open>k\<close>-th
  slice padded with zero samples to 320; and the last slice holds \<open>L mod 320\<close> samples
  before padding (320 when \<open>L\<close> is a multiple of 320).
\<close>

lemma send_audio_chunks:
  assumes "client_address s = Some a"
    and "to_int16 conv audio = xs"
    and "0 < length xs"
    and "(length xs + 319) div 320 \<le> 65536"
    and "\<forall>k < (length xs + 319) div 320. fits 4 (clock k)"
  shows "snd (send_audio conv clock s audio) = None
       \<and> (\<exists>pkts. sent (fst (send_audio conv clock s audio)) = sent s @ pkts
             \<and> length pkts = (length xs + 319) div 320
             \<and> (\<forall>k < length pkts.
                   snd (pkts ! k) = a
                   \<and> header_of (fst (pkts ! k)) = Inr (clock k, int k, 640)
                   \<and> drop 8 (fst (pkts ! k)) = tobytes (padded (chunk_at xs (k * chunk_size)))
                   \<and> length (fst (pkts ! k)) = 648))
       \<and> length (chunk_at xs (((length xs + 319) div 320 - 1) * chunk_size))
           = (if length xs mod 320 = 0 then 320 else length xs mod 320)"
proof -
  let ?n = "(length xs + 319) div 320"
  let ?pkts = "map (\<lambda>k. (projr (struct_pack_IHH (clock k) (int k) 640)
                             @ tobytes (padded (chunk_at xs (k * chunk_size))), a)) [0..<?n]"
  have st: "\<And>k. k < ?n \<Longrightarrow> fits 4 (clock k)" using assms(5) by blast
  have sa: "send_audio conv clock s audio =
      (s\<lparr>log := log s @ [LogSending (length xs)], sent := sent s @ ?pkts\<rparr>, None)"
    by (rule send_audio_bound [OF assms(1) assms(2) assms(4) st])
  have each: "snd (?pkts ! k) = a
       \<and> header_of (fst (?pkts ! k)) = Inr (clock k, int k, 640)
       \<and> drop 8 (fst (?pkts ! k)) = tobytes (padded (chunk_at xs (k * chunk_size)))
       \<and> length (fst (?pkts ! k)) = 648" if "k < length ?pkts" for k
  proof -
    have k: "k < ?n" using that by simp
    then have k16: "k < 65536" using assms(4) by simp
    have f: "fits 4 (clock k)" by (rule st [OF k])
    show ?thesis
      using k header_of_reply [OF f k16, of "tobytes (padded (chunk_at xs (k * chunk_size)))"]
      by (simp add: length_tobytes length_padded chunk_size_def)
  qed
  have "sent (fst (send_audio conv clock s audio)) = sent s @ ?pkts \<and> length ?pkts = ?n"
    using sa by simp
  then have ex: "\<exists>pkts. sent (fst (send_audio conv clock s audio)) = sent s @ pkts
             \<and> length pkts = ?n
             \<and> (\<forall>k < length pkts.
                   snd (pkts ! k) = a
                   \<and> header_of (fst (pkts ! k)) = Inr (clock k, int k, 640)
                   \<and> drop 8 (fst (pkts ! k)) = tobytes (padded (chunk_at xs (k * chunk_size)))
                   \<and> length (fst (pkts ! k)) = 648)"
    using each by blast
  have lc: "length (chunk_at xs ((?n - 1) * chunk_size))
           = (if length xs mod 320 = 0 then 320 else length xs mod 320)"
    using last_chunk_length [OF assms(3)] by (simp add: length_chunk_at chunk_size_def)
  show ?thesis using sa ex lc by simp
qed

text \<open>
  At a reply of 321 samples and clock readings 1000, 1018: two datagrams, the last slice
  holding one sample.
\<close>

lemma send_audio_chunks_at_321:
  "client_address (server_init\<lparr>client_address := Some (''192.168.4.2'', 8002)\<rparr>)
     = Some (''192.168.4.2'', 8002)
   \<and> to_int16 (\<lambda>x. x) (Int16Array (replicate 321 5)) = replicate 321 5
   \<and> 0 < length (replicate 321 (5 :: sample))
   \<and> (length (replicate 321 (5 :: sample)) + 319) div 320 = 2
   \<and> fits 4 1000 \<and> fits 4 1018
   \<and> snd (send_audio (\<lambda>x. x) (\<lambda>k. 1000 + 18 * int k)
            (server_init\<lparr>client_address := Some (''192.168.4.2'', 8002)\<rparr>)
            (Int16Array (replicate 321 5))) = None
   \<and> length (sent (fst (send_audio (\<lambda>x. x) (\<lambda>k. 1000 + 18 * int k)
            (server_init\<lparr>client_address := Some (''192.168.4.2'', 8002)\<rparr>)
            (Int16Array (replicate 321 5))))) = 2
   \<and> length (chunk_at (replicate 321 (5 :: sample)) 320) = 1"
proof -
  let ?s = "server_init\<lparr>client_address := Some (''192.168.4.2'', 8002)\<rparr>"
  have b: "client_address ?s = Some (''192.168.4.2'', 8002)" by simp
  have x: "to_int16 (\<lambda>x. x) (Int16Array (replicate 321 5)) = replicate 321 (5 :: sample)"
    by (simp add: to_int16_def)
  have l: "0 < length (replicate 321 (5 :: sample))" by simp
  have n: "(length (replicate 321 (5 :: sample)) + 319) div 320 = 2" by simp
  have q: "(length (replicate 321 (5 :: sample)) + 319) div 320 \<le> 65536" by simp
  have f: "fits 4 1000" "fits 4 1018" by (simp_all add: fits_def)
  have st: "\<forall>k < (length (replicate 321 (5 :: sample)) + 319) div 320.
              fits 4 (1000 + 18 * int k)"
    unfolding n by (auto simp: fits_def)
  have e: "sent ?s = []" by (simp add: server_init_def)
  show ?thesis
    using b x l n f e send_audio_chunks [OF b x l q st]
    by (auto simp: chunk_size_def)
qed

subsection \<open>On a present-day clock\<close>

text \<open>
  When the first timestamp does not fit 32 bits, \<^verbatim>\<open>struct.pack\<close> raises in the first
  iteration, before anything is sent.
\<close>

lemma send_audio_timestamp_overflow:
  assumes "client_address s = Some a" and "to_int16 conv audio = xs" and "0 < length xs"
    and "\<not> fits 4 (clock 0)"
  shows "send_audio conv clock s audio
           = (s\<lparr>log := log s @ [LogSending (length xs)]\<rparr>, Some StructError)"
proof -
  have "py_range 0 (length xs) chunk_size
      = 0 # py_range (0 + chunk_size) (length xs) chunk_size"
    using assms(3) by (intro py_range_unfold) (simp_all add: chunk_size_def)
  moreover have "struct_pack_IHH (clock 0) (int 0) (int (length (padded (chunk_at xs 0)) * 2))
      = Inl StructError"
    using assms(4) by (simp add: struct_pack_IHH_def)
  ultimately show ?thesis
    using assms(1,2) by (simp add: send_audio_def Let_def)
qed

text \<open>
  Claim C1 fails on the code. Line 95 takes the timestamp as milliseconds since 1970,
  and line 96 packs it into an unsigned 32-bit field, which holds milliseconds only up
  to 19 February 1970. At 1793746011.319 s (4 November 2026), with a client bound and a
  one-second reply of 16000 samples, the reading 1793746011319 does not fit, the first
  \<^verbatim>\<open>struct.pack\<close> raises \<^verbatim>\<open>struct.error\<close>, and \<^verbatim>\<open>send_audio\<close> ends with that
  exception having sent no datagram at all, where the claim has 50 chunk packets.
\<close>

theorem send_audio_raises_on_present_day_clock:
  "\<not> fits 4 1793746011319
   \<and> send_audio (\<lambda>x. x) (\<lambda>k. 1793746011319 + 18 * int k)
         (server_init\<lparr>client_address := Some (''192.168.4.2'', 8002)\<rparr>)
         (Int16Array (replicate 16000 0))
       = (server_init\<lparr>client_address := Some (''192.168.4.2'', 8002),
                       log := [LogSending 16000]\<rparr>, Some StructError)
   \<and> sent (fst (send_audio (\<lambda>x. x) (\<lambda>k. 1793746011319 + 18 * int k)
         (server_init\<lparr>client_address := Some (''192.168.4.2'', 8002)\<rparr>)
         (Int16Array (replicate 16000 0)))) = []"
proof -
  let ?s = "server_init\<lparr>client_address := Some (''192.168.4.2'', 8002)\<rparr>"
  have b: "client_address ?s = Some (''192.168.4.2'', 8002)" by simp
  have x: "to_int16 (\<lambda>x. x) (Int16Array (replicate 16000 0)) = replicate 16000 (0 :: sample)"
    by (simp add: to_int16_def)
  have l: "0 < length (replicate 16000 (0 :: sample))" by simp
  have f: "\<not> fits 4 1793746011319" by (simp add: fits_def)
  have "send_audio (\<lambda>x. x) (\<lambda>k. 1793746011319 + 18 * int k) ?s (Int16Array (replicate 16000 0))
      = (?s\<lparr>log := log ?s @ [LogSending (length (replicate 16000 (0 :: sample)))]\<rparr>,
         Some StructError)"
    using f send_audio_timestamp_overflow
      [where clock = "\<lambda>k. 1793746011319 + 18 * int k", OF b x l]
    by simp
  then show ?thesis using f by (simp add: server_init_def)
qed

section \<open>The segmentation loop\<close>

lemma poll_step_empty_buffer: "audio_buffer s = [] \<Longrightarrow> poll_step cfg s (Empty t) = Inr s"
  by (simp add: poll_step_def)

lemma poll_step_quiet:
  "(t - last_audio_time s) * 1000 \<le> silence_threshold_ms cfg \<Longrightarrow>
     poll_step cfg s (Empty t) = Inr s"
  by (simp add: poll_step_def)

lemma poll_step_got:
  "poll_step cfg s (Got c t) =
     Inr (s\<lparr>audio_buffer := audio_buffer s @ c, last_audio_time := t, processing := False\<rparr>)"
  by (simp add: poll_step_def)

lemma poll_step_closing:
  assumes "\<not> processing s" and "0 < sample_rate cfg"
    and "(t - last_audio_time s) * 1000 > silence_threshold_ms cfg"
  shows "poll_step cfg s (Empty t) =
           Inr (s\<lparr>audio_buffer := [],
              utterances := utterances s @
                (if long_enough cfg (audio_buffer s) then [audio_buffer s] else [])\<rparr>)"
  using assms by (cases "audio_buffer s = []") (simp_all add: poll_step_def long_enough_def Let_def)

lemma run_idle:
  "audio_buffer s = [] \<Longrightarrow>
     process_audio_stream cfg s (map Empty ts @ rest) = process_audio_stream cfg s rest"
  by (induction ts) (simp_all add: poll_step_empty_buffer)

lemma run_quiet:
  "list_all (\<lambda>t. (t - last_audio_time s) * 1000 \<le> silence_threshold_ms cfg) ts \<Longrightarrow>
     process_audio_stream cfg s (map Empty ts @ rest) = process_audio_stream cfg s rest"
  by (induction ts) (simp_all add: poll_step_quiet)

lemma run_burst:
  assumes "quiet_burst cfg b"
  shows "process_audio_stream cfg s (burst_events b @ rest) =
           process_audio_stream cfg
             (s\<lparr>audio_buffer := audio_buffer s @ frame b, last_audio_time := arrived b,
                processing := False\<rparr>) rest"
proof -
  let ?s1 = "s\<lparr>audio_buffer := audio_buffer s @ frame b, last_audio_time := arrived b,
                processing := False\<rparr>"
  have q: "list_all (\<lambda>t. (t - last_audio_time ?s1) * 1000 \<le> silence_threshold_ms cfg) (polls b)"
    using assms by (simp add: quiet_burst_def)
  have "process_audio_stream cfg s (burst_events b @ rest)
      = process_audio_stream cfg ?s1 (map Empty (polls b) @ rest)"
    by (simp add: burst_events_def poll_step_got)
  then show ?thesis using run_quiet [OF q] by simp
qed

lemma run_bursts:
  assumes "list_all (quiet_burst cfg) bs" and "bs \<noteq> []"
  shows "process_audio_stream cfg s (concat (map burst_events bs) @ rest) =
           process_audio_stream cfg
             (s\<lparr>audio_buffer := audio_buffer s @ concat (map frame bs),
                last_audio_time := arrived (last bs),
                processing := False\<rparr>) rest"
  using assms
proof (induction bs arbitrary: s)
  case Nil
  then show ?case by simp
next
  case (Cons b bs)
  have qb: "quiet_burst cfg b" using Cons.prems by simp
  let ?s1 = "s\<lparr>audio_buffer := audio_buffer s @ frame b, last_audio_time := arrived b,
                processing := False\<rparr>"
  have step: "process_audio_stream cfg s (concat (map burst_events (b # bs)) @ rest)
      = process_audio_stream cfg ?s1 (concat (map burst_events bs) @ rest)"
    using run_burst [OF qb, of s "concat (map burst_events bs) @ rest"] by simp
  show ?case
  proof (cases "bs = []")
    case True
    then show ?thesis using step by simp
  next
    case False
    have "list_all (quiet_burst cfg) bs" using Cons.prems by simp
    then show ?thesis using Cons.IH [of ?s1] False step by simp
  qed
qed

lemma run_group:
  assumes "audio_buffer s = []" and "\<not> processing s" and "0 < sample_rate cfg"
    and "delimited cfg g"
  shows "process_audio_stream cfg s (group_events g @ rest) =
           process_audio_stream cfg
             (s\<lparr>last_audio_time := arrived (last (bursts g)),
                utterances := utterances s @
                  (if long_enough cfg (group_samples g) then [group_samples g] else [])\<rparr>) rest"
proof -
  have q: "list_all (quiet_burst cfg) (bursts g)" and ne: "bursts g \<noteq> []"
    and cl: "(closing g - arrived (last (bursts g))) * 1000 > silence_threshold_ms cfg"
    using assms(4) by (simp_all add: delimited_def)
  let ?s1 = "s\<lparr>audio_buffer := audio_buffer s @ concat (map frame (bursts g)),
                last_audio_time := arrived (last (bursts g)),
                processing := False\<rparr>"
  have "process_audio_stream cfg s (group_events g @ rest)
      = process_audio_stream cfg s
          (concat (map burst_events (bursts g)) @ (Empty (closing g) # rest))"
    using run_idle [OF assms(1)] by (simp add: group_events_def)
  also have "\<dots> = process_audio_stream cfg ?s1 (Empty (closing g) # rest)"
    by (rule run_bursts [OF q ne])
  finally have run: "process_audio_stream cfg s (group_events g @ rest)
      = process_audio_stream cfg ?s1 (Empty (closing g) # rest)" .
  have "poll_step cfg ?s1 (Empty (closing g)) =
      Inr (?s1\<lparr>audio_buffer := [],
          utterances := utterances ?s1 @
            (if long_enough cfg (audio_buffer ?s1) then [audio_buffer ?s1] else [])\<rparr>)"
    using assms(3) cl by (intro poll_step_closing) simp_all
  moreover have "?s1\<lparr>audio_buffer := [],
          utterances := utterances ?s1 @
            (if long_enough cfg (audio_buffer ?s1) then [audio_buffer ?s1] else [])\<rparr>
      = s\<lparr>last_audio_time := arrived (last (bursts g)),
                utterances := utterances s @
                  (if long_enough cfg (group_samples g) then [group_samples g] else [])\<rparr>"
    using assms(1,2) by (simp add: group_samples_def)
  ultimately have "process_audio_stream cfg ?s1 (Empty (closing g) # rest)
      = process_audio_stream cfg
          (s\<lparr>last_audio_time := arrived (last (bursts g)),
             utterances := utterances s @
               (if long_enough cfg (group_samples g) then [group_samples g] else [])\<rparr>) rest"
    by simp
  then show ?thesis using run by simp
qed

lemma run_groups:
  assumes "audio_buffer s = []" and "\<not> processing s" and "0 < sample_rate cfg"
    and "list_all (delimited cfg) gs"
  shows "process_audio_stream cfg s (concat (map group_events gs) @ rest) =
           process_audio_stream cfg
             (s\<lparr>last_audio_time :=
                  (if gs = [] then last_audio_time s else arrived (last (bursts (last gs)))),
                utterances := utterances s @ filter (long_enough cfg) (map group_samples gs)\<rparr>)
             rest"
  using assms
proof (induction gs arbitrary: s)
  case Nil
  then show ?case by simp
next
  case (Cons g gs)
  let ?s1 = "s\<lparr>last_audio_time := arrived (last (bursts g)),
                utterances := utterances s @
                  (if long_enough cfg (group_samples g) then [group_samples g] else [])\<rparr>"
  have d: "delimited cfg g" and ds: "list_all (delimited cfg) gs" using Cons.prems by simp_all
  have "process_audio_stream cfg s (concat (map group_events (g # gs)) @ rest)
      = process_audio_stream cfg ?s1 (concat (map group_events gs) @ rest)"
    using run_group [OF Cons.prems(1,2,3) d, of "concat (map group_events gs) @ rest"] by simp
  also have "\<dots> = process_audio_stream cfg
             (?s1\<lparr>last_audio_time :=
                  (if gs = [] then last_audio_time ?s1 else arrived (last (bursts (last gs)))),
                utterances := utterances ?s1 @ filter (long_enough cfg) (map group_samples gs)\<rparr>)
             rest"
    using Cons.prems(1,2,3) ds by (intro Cons.IH) simp_all
  finally show ?case by simp
qed

lemma long_enough_howdy: "long_enough howdy u = (8000 \<le> length u)"
  by (auto simp: long_enough_def howdy_def)

text \<open>
  Claim C2, as stated, fails when the gap equals the threshold. Two groups of 9000
  samples are dequeued at 1000.0 s and 1000.5 s, a gap of exactly 500 ms; the empty polls
  between them (the last one at 1000.5 s, 500 ms after the first frame) do not close
  the first group, because line 233 asks for more than the threshold. After 600 ms of
  silence the loop hands on one utterance of 18000 samples, not one per group.
\<close>

theorem gap_equal_to_threshold_merges_groups:
  "utterances (process_audio_stream howdy (segmenter_init 999)
       [Got (replicate 9000 0) 1000, Empty 1000.25, Empty 1000.5,
        Got (replicate 9000 0) 1000.5, Empty 1001.1])
     = [replicate 9000 0 @ replicate 9000 0]
   \<and> length (replicate 9000 (0 :: sample) @ replicate 9000 0) = 18000"
  by (simp add: poll_step_def howdy_def segmenter_init_def)

text \<open>
  Claim C2, amended. Call a group delimited when it has at least one frame, no empty
  poll inside it sees more than the threshold of silence since the frame before it, and
  its closing empty poll sees strictly more than the threshold since the group's last
  frame (times are those the loop reads when it dequeues a frame or finds the queue
  empty). Started with an empty buffer, the loop run over any sequence of delimited
  groups hands on exactly the non-empty groups that are not shorter than the minimum
  duration, in order, each as the concatenation of its frames (so its sample count is
  the sum of the frames' sample counts); a shorter group is dropped without any error;
  and after every group the buffer is empty again. With the default parameters a group
  is handed on exactly when it has at least 8000 samples.
\<close>

theorem one_utterance_per_delimited_group:
  assumes "audio_buffer s = []" and "\<not> processing s" and "0 < sample_rate cfg"
    and "list_all (delimited cfg) gs"
  shows "utterances (process_audio_stream cfg s (concat (map group_events gs)))
           = utterances s @ filter (long_enough cfg) (map group_samples gs)
       \<and> audio_buffer (process_audio_stream cfg s (concat (map group_events gs))) = []
       \<and> \<not> processing (process_audio_stream cfg s (concat (map group_events gs)))
       \<and> length (group_samples g) = sum_list (map (\<lambda>b. length (frame b)) (bursts g))
       \<and> long_enough howdy u = (8000 \<le> length u)"
proof -
  have "process_audio_stream cfg s (concat (map group_events gs) @ []) =
      process_audio_stream cfg
        (s\<lparr>last_audio_time :=
             (if gs = [] then last_audio_time s else arrived (last (bursts (last gs)))),
           utterances := utterances s @ filter (long_enough cfg) (map group_samples gs)\<rparr>) []"
    by (rule run_groups [OF assms])
  then have r: "process_audio_stream cfg s (concat (map group_events gs)) =
      s\<lparr>last_audio_time :=
             (if gs = [] then last_audio_time s else arrived (last (bursts (last gs)))),
           utterances := utterances s @ filter (long_enough cfg) (map group_samples gs)\<rparr>"
    by simp
  have l: "length (group_samples g) = sum_list (map (\<lambda>b. length (frame b)) (bursts g))"
    by (simp add: group_samples_def length_concat comp_def)
  show ?thesis using assms(1,2) l by (simp add: r long_enough_howdy)
qed

text \<open>
  The theorem at the spec's two scenarios, one after the other: 9000 samples followed
  by 600 ms of silence (handed on), then 10 frames of 160 samples 20 ms apart followed
  by 600 ms of silence (1600 samples, dropped).
\<close>

theorem one_utterance_per_delimited_group_witness:
  "audio_buffer (segmenter_init 999) = []
   \<and> \<not> processing (segmenter_init 999)
   \<and> 0 < sample_rate howdy
   \<and> delimited howdy
        \<lparr>idle = [999.5], bursts = [\<lparr>frame = replicate 9000 0, arrived = 1000, polls = [1000.02, 1000.5]\<rparr>],
         closing = 1000.6\<rparr>
   \<and> delimited howdy
        \<lparr>idle = [1000.8],
         bursts = map (\<lambda>k. \<lparr>frame = replicate 160 0, arrived = 1001 + real k / 50, polls = []\<rparr>) [0..<10],
         closing = 1001.78\<rparr>
   \<and> utterances (process_audio_stream howdy (segmenter_init 999)
        (concat (map group_events
          [\<lparr>idle = [999.5], bursts = [\<lparr>frame = replicate 9000 0, arrived = 1000, polls = [1000.02, 1000.5]\<rparr>],
            closing = 1000.6\<rparr>,
           \<lparr>idle = [1000.8],
            bursts = map (\<lambda>k. \<lparr>frame = replicate 160 0, arrived = 1001 + real k / 50, polls = []\<rparr>) [0..<10],
            closing = 1001.78\<rparr>])))
       = [replicate 9000 0]"
proof -
  let ?g1 = "\<lparr>idle = [999.5], bursts = [\<lparr>frame = replicate 9000 (0 :: sample), arrived = 1000, polls = [1000.02, 1000.5]\<rparr>],
         closing = 1000.6\<rparr>"
  let ?g2 = "\<lparr>idle = [1000.8],
         bursts = map (\<lambda>k. \<lparr>frame = replicate 160 (0 :: sample), arrived = 1001 + real k / 50, polls = []\<rparr>) [0..<10],
         closing = 1001.78\<rparr>"
  have a: "audio_buffer (segmenter_init 999) = []" and p: "\<not> processing (segmenter_init 999)"
    by (simp_all add: segmenter_init_def)
  have r: "0 < sample_rate howdy" by (simp add: howdy_def)
  have d1: "delimited howdy ?g1"
    by (simp add: delimited_def quiet_burst_def howdy_def)
  have d2: "delimited howdy ?g2"
    by (simp add: delimited_def quiet_burst_def howdy_def list_all_iff last_map)
  have ds: "list_all (delimited howdy) [?g1, ?g2]" using d1 d2 by simp
  have s1: "group_samples ?g1 = replicate 9000 0" by (simp add: group_samples_def)
  have s2: "length (group_samples ?g2) = 1600"
    by (simp add: group_samples_def length_concat comp_def sum_list_triv)
  have "utterances (process_audio_stream howdy (segmenter_init 999)
          (concat (map group_events [?g1, ?g2])))
      = utterances (segmenter_init 999) @ filter (long_enough howdy) (map group_samples [?g1, ?g2])"
    using one_utterance_per_delimited_group [OF a p r ds] by blast
  also have "\<dots> = [replicate 9000 0]"
    using s1 s2 by (simp add: long_enough_howdy segmenter_init_def)
  finally show ?thesis using a p r d1 d2 by blast
qed

section \<open>The WebSocket endpoint\<close>

lemma handle_unknown_type:
  assumes "dict_get d ''type'' = JStr ty"
    and "ty \<notin> {''ping'', ''text_to_speech'', ''voice_start'', ''voice_end'', ''echo_test''}"
  shows "handle_websocket_message e srv ci (JObj d) =
           (srv,
            [SendStr (JObj [(''type'', JStr ''error''),
                            (''error'', JStr (''Unknown message type: '' @ ty)),
                            (''timestamp'', JStr (now e))])],
            None)"
  using assms by (simp add: handle_websocket_message_def format_value_def)

text \<open>
  The test server knows no \<^verbatim>\<open>tts_audio_chunk\<close>: whatever the message carries and
  whatever the server holds, the handler answers through its final \<^verbatim>\<open>else\<close> with an
  error and changes nothing. It keeps no session and no count of chunks.
\<close>

lemma test_server_knows_no_chunk:
  assumes "dict_get d ''type'' = JStr ''tts_audio_chunk''"
  shows "handle_websocket_message e srv ci (JObj d) =
           (srv,
            [SendStr (JObj [(''type'', JStr ''error''),
                            (''error'', JStr ''Unknown message type: tts_audio_chunk''),
                            (''timestamp'', JStr (now e))])],
            None)"
  using handle_unknown_type [OF assms] by simp

text \<open>
  A text frame on which the parser raises \<^verbatim>\<open>json.JSONDecodeError\<close> is answered with
  an error-typed message and the loop goes on with the frames after it.
\<close>

lemma decode_error_gets_error_reply:
  assumes "json_loads e txt = Inl JSONDecodeError"
  shows "message_loop e srv ci (TEXT txt # ms) =
           (fst (message_loop e srv ci ms),
            invalid_json_reply e # fst (snd (message_loop e srv ci ms)),
            snd (snd (message_loop e srv ci ms)))
       \<and> message_type (invalid_json_reply e) = JStr ''error''"
  using assms by (simp add: case_prod_beta invalid_json_reply_def message_type_def dict_get_def)

text \<open>
  A text frame on which the parser raises any other exception ends the loop at once:
  nothing is sent for it and the frames after it are never read.
\<close>

lemma other_parse_error_ends_loop:
  assumes "json_loads e txt = Inl x" and "x \<noteq> JSONDecodeError"
  shows "message_loop e srv ci (TEXT txt # ms) = (srv, [], leave_loop x)"
  using assms by simp

lemma brackets_not_chunk: "replicate 2000 CHR ''['' \<noteq> ''CHUNK-5''"
proof
  assume "replicate 2000 CHR ''['' = ''CHUNK-5''"
  then have "length (replicate 2000 CHR ''['') = length ''CHUNK-5''" by (rule arg_cong)
  then show False by simp
qed

text \<open>
  Claim C8 fails on the code. A text frame of 2000 opening brackets is not JSON, and on
  it \<^verbatim>\<open>json.loads\<close> raises \<^verbatim>\<open>RecursionError\<close>, which the handler of line 287 does
  not catch. The exception reaches line 301: no error reply is sent, the loop is left,
  the frame that follows is never answered, and the endpoint returns, closing the
  connection.
\<close>

theorem deeply_nested_text_ends_connection:
  "json_loads sample_env (replicate 2000 CHR ''['') = Inl RecursionError
   \<and> message_loop sample_env sample_server sample_client
         [TEXT (replicate 2000 CHR ''[''), TEXT ''CHUNK-5'']
       = (sample_server, [], Caught RecursionError)
   \<and> message_loop sample_env sample_server sample_client [TEXT ''CHUNK-5'']
       = (sample_server,
          [SendStr (JObj [(''type'', JStr ''error''),
                          (''error'', JStr ''Unknown message type: tts_audio_chunk''),
                          (''timestamp'', JStr ''2025-01-01T00:00:00'')])],
          PeerClosed)"
proof -
  have j: "json_loads sample_env (replicate 2000 CHR ''['') = Inl RecursionError"
    using brackets_not_chunk by (simp add: sample_env_def)
  have x: "RecursionError \<noteq> JSONDecodeError" by simp
  have a: "message_loop sample_env sample_server sample_client
         [TEXT (replicate 2000 CHR ''[''), TEXT ''CHUNK-5'']
       = (sample_server, [], leave_loop RecursionError)"
    by (rule other_parse_error_ends_loop [OF j x])
  have t: "dict_get chunk_message ''type'' = JStr ''tts_audio_chunk''"
    by (simp add: dict_get_def chunk_message_def)
  have c: "json_loads sample_env ''CHUNK-5'' = Inr (JObj chunk_message)"
    by (simp add: sample_env_def)
  have n: "now sample_env = ''2025-01-01T00:00:00''" by (simp add: sample_env_def)
  have r: "message_loop sample_env sample_server sample_client [TEXT ''CHUNK-5''] =
       (sample_server,
        [SendStr (JObj [(''type'', JStr ''error''),
                        (''error'', JStr ''Unknown message type: tts_audio_chunk''),
                        (''timestamp'', JStr ''2025-01-01T00:00:00'')])],
        PeerClosed)"
    using c test_server_knows_no_chunk [OF t, of sample_env sample_server sample_client]
    by (simp add: n)
  show ?thesis using j a r by (simp add: leave_loop_def)
qed

section \<open>The reply session protocol: out-of-order chunks\<close>





end
